theory Spec2Isabelle
  imports Main "HOL-Library.Word"
begin


section \<open>Errors and machine integers\<close>

text \<open>
  The server (\<open>server/main.go\<close>) declares two sentinel errors, \<open>errInvalidRange\<close>
  (returned by the store) and \<open>errInvalidRangeStr\<close> (returned by the parser), and
  passes on the \<open>*strconv.NumError\<close> of \<open>strconv.ParseUint\<close>, whose cause is either
  \<open>strconv.ErrSyntax\<close> or \<open>strconv.ErrRange\<close>. \<open>PanicSliceBounds\<close> is not an error
  value of the program: it stands for the run-time panic of a slice expression whose
  bounds are out of range, so that the panic is a branch of the model.

  Go's \<open>int64\<close> and \<open>uint64\<close> are both \<open>64 word\<close>: the conversions \<open>int64(u)\<close> and
  \<open>uint64(i)\<close> keep the bits, \<open>+\<close> and \<open>-\<close> wrap, \<open>sint\<close> reads the value of an
  \<open>int64\<close>, \<open>unat\<close> that of a \<open>uint64\<close>, and \<open><s\<close> is the comparison of \<open>int64\<close>.
\<close>

datatype error =
    ErrInvalidRange
  | ErrInvalidRangeStr
  | NumErrSyntax
  | NumErrRange
  | PanicSliceBounds

type_synonym int64 = "64 word"
type_synonym uint64 = "64 word"

section \<open>Library functions used by the parser\<close>

subsection \<open>strings.HasPrefix and strings.Split\<close>

definition HasPrefix :: "string \<Rightarrow> string \<Rightarrow> bool" where
  "HasPrefix s pre = (take (length pre) s = pre)"

text \<open>
  \<open>strings.Split(s, sep)\<close> for a separator of one byte, which is how the parser calls
  it (\<open>"-"\<close>): the substrings between the separators, \<open>[""]\<close> for the empty string.
\<close>

fun Split :: "string \<Rightarrow> char \<Rightarrow> string list" where
  "Split [] sep = [[]]"
| "Split (c # cs) sep =
     (if c = sep then [] # Split cs sep
      else (case Split cs sep of
              [] \<Rightarrow> [[c]]
            | t # ts \<Rightarrow> (c # t) # ts))"

subsection \<open>strings.TrimSpace\<close>

text \<open>
  \<open>strings.TrimSpace\<close> removes the leading and the trailing white-space runes, as
  \<open>unicode.IsSpace\<close> defines them. A Go string is a sequence of bytes, so a rune of
  white space is one of the six ASCII bytes below or the UTF-8 encoding of U+0085,
  U+00A0, U+1680, U+2000 to U+200A, U+2028, U+2029, U+202F, U+205F or U+3000.
\<close>

definition isAsciiSpace :: "char \<Rightarrow> bool" where
  "isAsciiSpace c =
     (c = CHR 0x09 \<or> c = CHR 0x0A \<or> c = CHR 0x0B \<or> c = CHR 0x0C \<or> c = CHR 0x0D \<or> c = CHR 0x20)"

text \<open>The bytes that follow the lead byte \<open>c\<close> of a two-byte white-space rune.\<close>

definition isSpaceTail1 :: "char \<Rightarrow> char \<Rightarrow> bool" where
  "isSpaceTail1 c d = (c = CHR 0xC2 \<and> (d = CHR 0x85 \<or> d = CHR 0xA0))"

text \<open>The two bytes that follow the lead byte \<open>c\<close> of a three-byte white-space rune.\<close>

definition isSpaceTail2 :: "char \<Rightarrow> char \<Rightarrow> char \<Rightarrow> bool" where
  "isSpaceTail2 c d e =
     ((c = CHR 0xE1 \<and> d = CHR 0x9A \<and> e = CHR 0x80)
      \<or> (c = CHR 0xE2 \<and> d = CHR 0x80 \<and>
           ((0x80 \<le> (of_char e :: nat) \<and> (of_char e :: nat) \<le> 0x8A)
            \<or> e = CHR 0xA8 \<or> e = CHR 0xA9 \<or> e = CHR 0xAF))
      \<or> (c = CHR 0xE2 \<and> d = CHR 0x81 \<and> e = CHR 0x9F)
      \<or> (c = CHR 0xE3 \<and> d = CHR 0x80 \<and> e = CHR 0x80))"

text \<open>Width in bytes of the white-space rune a string starts with, 0 when there is none.\<close>

fun spaceWidth :: "string \<Rightarrow> nat" where
  "spaceWidth [] = 0"
| "spaceWidth [c] = (if isAsciiSpace c then 1 else 0)"
| "spaceWidth [c, d] = (if isAsciiSpace c then 1 else if isSpaceTail1 c d then 2 else 0)"
| "spaceWidth (c # d # e # _) =
     (if isAsciiSpace c then 1 else if isSpaceTail1 c d then 2
      else if isSpaceTail2 c d e then 3 else 0)"

text \<open>The same for the rune a string ends with, read on the reversed string.\<close>

fun spaceWidthRev :: "string \<Rightarrow> nat" where
  "spaceWidthRev [] = 0"
| "spaceWidthRev [c] = (if isAsciiSpace c then 1 else 0)"
| "spaceWidthRev [d, c] = (if isAsciiSpace d then 1 else if isSpaceTail1 c d then 2 else 0)"
| "spaceWidthRev (e # d # c # _) =
     (if isAsciiSpace e then 1 else if isSpaceTail1 d e then 2
      else if isSpaceTail2 c d e then 3 else 0)"

fun trimLeftSpace :: "string \<Rightarrow> string" where
  "trimLeftSpace [] = []"
| "trimLeftSpace (c # cs) =
     (if spaceWidth (c # cs) = 0 then c # cs
      else trimLeftSpace (drop (spaceWidth (c # cs) - 1) cs))"

fun trimRevSpace :: "string \<Rightarrow> string" where
  "trimRevSpace [] = []"
| "trimRevSpace (c # cs) =
     (if spaceWidthRev (c # cs) = 0 then c # cs
      else trimRevSpace (drop (spaceWidthRev (c # cs) - 1) cs))"

definition TrimSpace :: "string \<Rightarrow> string" where
  "TrimSpace s = rev (trimRevSpace (rev (trimLeftSpace s)))"

subsection \<open>strconv.ParseUint(s, 10, 64)\<close>

text \<open>
  The loop of \<open>strconv.ParseUint\<close> for base 10 and 64 bits: a byte that is not a
  decimal digit is a syntax error (a letter gives a digit value of at least 10, which is
  not below the base; an underscore is accepted in base 0 only); \<open>n >= cutoff\<close> and a
  wrapped \<open>n + d\<close> are range errors. The empty string is a syntax error.
\<close>

definition isDigit :: "char \<Rightarrow> bool" where
  "isDigit c = (of_char (CHR ''0'') \<le> (of_char c :: nat) \<and> (of_char c :: nat) \<le> of_char (CHR ''9''))"

definition digitVal :: "char \<Rightarrow> nat" where
  "digitVal c = of_char c - of_char (CHR ''0'')"

definition cutoff :: uint64 where
  "cutoff = 0xFFFFFFFFFFFFFFFF div 10 + 1"

fun parseLoop :: "uint64 \<Rightarrow> string \<Rightarrow> error + uint64" where
  "parseLoop n [] = Inr n"
| "parseLoop n (c # cs) =
     (if \<not> isDigit c then Inl NumErrSyntax
      else if cutoff \<le> n then Inl NumErrRange
      else (let n10 = n * 10; n1 = n10 + of_nat (digitVal c)
            in if n1 < n10 then Inl NumErrRange else parseLoop n1 cs))"

definition ParseUint :: "string \<Rightarrow> error + uint64" where
  "ParseUint s = (if s = [] then Inl NumErrSyntax else parseLoop 0 s)"

section \<open>The range parser\<close>

text \<open>
  \<open>offsetAndLenFromRange\<close> of \<open>server/main.go\<close>. The Go function returns
  \<open>(int64, int64, error)\<close>; here \<open>Inl\<close> is a non-nil error and \<open>Inr\<close> the pair.
  The empty string gives \<open>(-1, -1)\<close> and no error. The suffix branch replaces the
  error of \<open>ParseUint\<close> by \<open>errInvalidRangeStr\<close>; the other two pass it on.
\<close>

definition offsetAndLenFromRange :: "string \<Rightarrow> int64 \<Rightarrow> error + (int64 \<times> int64)" where
  "offsetAndLenFromRange rngStr contentSize =
     (if rngStr = [] then Inr (- 1, - 1)
      else if \<not> HasPrefix rngStr ''bytes='' then Inl ErrInvalidRangeStr
      else (case Split (drop 6 rngStr) (CHR ''-'') of
              [t0, t1] \<Rightarrow>
                (if t0 = [] then
                   (case ParseUint (TrimSpace t1) of
                      Inl err \<Rightarrow> Inl ErrInvalidRangeStr
                    | Inr len \<Rightarrow> Inr (contentSize - len, len))
                 else if t1 = [] then
                   (case ParseUint (TrimSpace t0) of
                      Inl err \<Rightarrow> Inl err
                    | Inr offset \<Rightarrow> Inr (offset, contentSize - offset))
                 else
                   (case ParseUint (TrimSpace t0) of
                      Inl err \<Rightarrow> Inl err
                    | Inr start \<Rightarrow>
                        (case ParseUint (TrimSpace t1) of
                           Inl err \<Rightarrow> Inl err
                         | Inr end \<Rightarrow> Inr (start, (end - start) + 1))))
            | _ \<Rightarrow> Inl ErrInvalidRangeStr))"

section \<open>The content store\<close>

text \<open>
  \<open>inMemContents\<close> holds the bytes served. Its mutex is never locked and is left out.
  \<open>Len\<close> is \<open>int64(len(c.contents))\<close>.
\<close>

record inMemContents =
  contents :: "char list"

definition Len :: "inMemContents \<Rightarrow> int64" where
  "Len c = of_nat (length (contents c))"

definition ReadAll :: "inMemContents \<Rightarrow> char list" where
  "ReadAll c = contents c"

text \<open>
  The slice expression \<open>xs[lo:hi]\<close> with \<open>int64\<close> bounds. Go panics unless
  \<open>0 <= lo <= hi <= cap(xs)\<close>; the capacity is at least the length, and the model panics
  already beyond the length.
\<close>

definition sliceBytes :: "char list \<Rightarrow> int64 \<Rightarrow> int64 \<Rightarrow> error + char list" where
  "sliceBytes xs lo hi =
     (if 0 \<le>s lo \<and> lo \<le>s hi \<and> sint hi \<le> int (length xs)
      then Inr (take (nat (sint hi) - nat (sint lo)) (drop (nat (sint lo)) xs))
      else Inl PanicSliceBounds)"

definition ReadRange :: "inMemContents \<Rightarrow> int64 \<Rightarrow> int64 \<Rightarrow> error + char list" where
  "ReadRange c start end =
     (if end <s start \<or> Len c <s end \<or> start <s 0 then Inl ErrInvalidRange
      else sliceBytes (contents c) start end)"

section \<open>Requests and the response writer\<close>

subsection \<open>Header keys\<close>

text \<open>
  \<open>http.Header.Get\<close> and \<open>http.Header.Add\<close> look a key up in its canonical form
  (\<open>textproto.CanonicalMIMEHeaderKey\<close>): a key made of header-field bytes only has the
  first letter and every letter after a hyphen in upper case and the others in lower
  case; any other key is left as it is.
\<close>

definition isLower :: "char \<Rightarrow> bool" where
  "isLower c = (of_char (CHR ''a'') \<le> (of_char c :: nat) \<and> (of_char c :: nat) \<le> of_char (CHR ''z''))"

definition isUpper :: "char \<Rightarrow> bool" where
  "isUpper c = (of_char (CHR ''A'') \<le> (of_char c :: nat) \<and> (of_char c :: nat) \<le> of_char (CHR ''Z''))"

definition validHeaderFieldByte :: "char \<Rightarrow> bool" where
  "validHeaderFieldByte c =
     (isLower c \<or> isUpper c \<or> isDigit c \<or> c \<in> set ''!#$%&*+-.^_`|~'' \<or> c = CHR 0x27)"

fun canonLoop :: "bool \<Rightarrow> string \<Rightarrow> string" where
  "canonLoop upper [] = []"
| "canonLoop upper (c # cs) =
     (let c' = (if upper \<and> isLower c then char_of (of_char c - (32 :: nat))
                else if \<not> upper \<and> isUpper c then char_of (of_char c + (32 :: nat))
                else c)
      in c' # canonLoop (c' = CHR ''-'') cs)"

definition CanonicalHeaderKey :: "string \<Rightarrow> string" where
  "CanonicalHeaderKey s = (if list_all validHeaderFieldByte s then canonLoop True s else s)"

text \<open>
  A header (\<open>http.Header\<close>, a map from keys to lists of values) and the parsed query
  (\<open>url.Values\<close>, the same without canonical keys). A key that is not in the map has
  the empty list: \<open>Get\<close> cannot tell the two apart.
\<close>

type_synonym header = "string \<Rightarrow> string list"

definition Get :: "header \<Rightarrow> string \<Rightarrow> string" where
  "Get h key = (case h (CanonicalHeaderKey key) of [] \<Rightarrow> [] | v # _ \<Rightarrow> v)"

definition Add :: "header \<Rightarrow> string \<Rightarrow> string \<Rightarrow> header" where
  "Add h key v = h(CanonicalHeaderKey key := h (CanonicalHeaderKey key) @ [v])"

definition QueryGet :: "header \<Rightarrow> string \<Rightarrow> string" where
  "QueryGet q key = (case q key of [] \<Rightarrow> [] | v # _ \<Rightarrow> v)"

record request =
  reqMethod :: string
  reqHeader :: header
  reqQuery :: header

subsection \<open>The response writer\<close>

text \<open>
  The state of an \<open>http.ResponseWriter\<close>: the header map the handler fills, whether
  the status line was written, and then the status code, the header as it was at that
  moment (a later change is not sent) and the body written so far. \<open>panicked\<close> records
  that the handler panicked. \<open>Write\<close> writes the whole slice and returns its length;
  a failing connection is not modelled. Lines printed to standard output are left out.
\<close>

record responseWriter =
  rwHeader :: header
  wroteHeader :: bool
  statusCode :: nat
  sentHeader :: header
  body :: "char list"
  panicked :: bool

definition newResponseWriter :: responseWriter where
  "newResponseWriter =
     \<lparr>rwHeader = (\<lambda>k. []), wroteHeader = False, statusCode = 0,
      sentHeader = (\<lambda>k. []), body = [], panicked = False\<rparr>"

definition HeaderAdd :: "responseWriter \<Rightarrow> string \<Rightarrow> string \<Rightarrow> responseWriter" where
  "HeaderAdd w key v = w\<lparr>rwHeader := Add (rwHeader w) key v\<rparr>"

definition WriteHeader :: "responseWriter \<Rightarrow> nat \<Rightarrow> responseWriter" where
  "WriteHeader w code =
     (if wroteHeader w then w
      else w\<lparr>wroteHeader := True, statusCode := code, sentHeader := rwHeader w\<rparr>)"

definition Write :: "responseWriter \<Rightarrow> char list \<Rightarrow> responseWriter \<times> nat" where
  "Write w b =
     (let w1 = (if wroteHeader w then w else WriteHeader w 200)
      in (w1\<lparr>body := body w1 @ b\<rparr>, length b))"

subsection \<open>Decimal output\<close>

text \<open>\<open>strconv.FormatInt(i, 10)\<close> and \<open>fmt.Sprintf("%d", i)\<close> of an \<open>int64\<close>.\<close>

function natDigits :: "nat \<Rightarrow> string" where
  "natDigits n =
     (if n < 10 then [char_of (48 + n)] else natDigits (n div 10) @ [char_of (48 + n mod 10)])"
  by pat_completeness auto
termination
  by (relation "measure id") auto

declare natDigits.simps [simp del]

definition FormatInt :: "int64 \<Rightarrow> string" where
  "FormatInt i =
     (if sint i < 0 then CHR ''-'' # natDigits (nat (- sint i)) else natDigits (nat (sint i)))"

section \<open>The handler\<close>

text \<open>
  \<open>writeContentRange\<close>: parse the specifier against the store's length, read the
  window, and answer 206 with \<open>Content-Range\<close> and \<open>Content-Length\<close>, or 400 when
  either step fails. The flag \<open>vbs\<close> only adds a line to the log and is left out, here
  and in \<open>serveContents\<close>.
\<close>

definition writeContentRange :: "responseWriter \<Rightarrow> inMemContents \<Rightarrow> string \<Rightarrow> responseWriter" where
  "writeContentRange w store rangeStr =
     (case offsetAndLenFromRange rangeStr (Len store) of
        Inl err \<Rightarrow> WriteHeader w 400
      | Inr (offset, len) \<Rightarrow>
          (case ReadRange store offset (offset + len) of
             Inl PanicSliceBounds \<Rightarrow> w\<lparr>panicked := True\<rparr>
           | Inl err \<Rightarrow> WriteHeader w 400
           | Inr b \<Rightarrow>
               (let contentRange = ''bytes '' @ FormatInt offset @ ''-''
                      @ FormatInt (offset + len - 1) @ ''/'' @ FormatInt (Len store);
                    contentLength = FormatInt len;
                    w1 = HeaderAdd w ''Content-Range'' contentRange;
                    w2 = HeaderAdd w1 ''Content-Length'' contentLength;
                    w3 = WriteHeader w2 206
                in (case Write w3 b of
                      (w4, n) \<Rightarrow>
                        (if (of_nat n :: int64) \<noteq> len
                         then (WriteHeader w4 500)\<lparr>panicked := True\<rparr>
                         else w4)))))"

text \<open>
  \<open>serveContents\<close>: a method other than GET is answered 400 at once; then the header
  \<open>Accept-Ranges\<close> is added, and the specifier is looked for in the header \<open>Range\<close>,
  the header \<open>X-Dolt-Range\<close> and the query parameters \<open>Range\<close> and \<open>range\<close>; with
  none the whole content is written with status 200.
\<close>

definition serveContents :: "responseWriter \<Rightarrow> request \<Rightarrow> inMemContents \<Rightarrow> responseWriter" where
  "serveContents w req store =
     (if reqMethod req \<noteq> ''GET'' then
        (case Write (WriteHeader w 400) ''only GET requests supported.'' of (w1, n) \<Rightarrow> w1)
      else
        (let w1 = HeaderAdd w ''Accept-Ranges'' ''bytes'';
             rangeHeader0 = Get (reqHeader req) ''Range'';
             rangeHeader = (if rangeHeader0 = [] then Get (reqHeader req) ''range'' else rangeHeader0)
         in if rangeHeader \<noteq> [] then writeContentRange w1 store rangeHeader
            else
              (let xRangeHeader0 = Get (reqHeader req) ''X-Dolt-Range'';
                   xRangeHeader = (if xRangeHeader0 = [] then Get (reqHeader req) ''x-dolt-range''
                                   else xRangeHeader0)
               in if xRangeHeader \<noteq> [] then writeContentRange w1 store xRangeHeader
                  else
                    (let rangeParam0 = QueryGet (reqQuery req) ''Range'';
                         rangeParam = (if rangeParam0 = [] then QueryGet (reqQuery req) ''range''
                                       else rangeParam0)
                     in if rangeParam \<noteq> [] then writeContentRange w1 store rangeParam
                        else
                          (let b = ReadAll store;
                               w2 = HeaderAdd w1 ''Content-Length'' (FormatInt (Len store));
                               w3 = WriteHeader w2 200
                           in (case Write w3 b of
                                 (w4, n) \<Rightarrow>
                                   (if (of_nat n :: int64) \<noteq> Len store
                                    then w4\<lparr>panicked := True\<rparr>
                                    else w4)))))))"

text \<open>
  The two servers call \<open>serveContents\<close> on a new writer; the TLS one adds
  \<open>Strict-Transport-Security\<close> first.
\<close>

definition httpHandler :: "inMemContents \<Rightarrow> request \<Rightarrow> responseWriter" where
  "httpHandler store req = serveContents newResponseWriter req store"

definition httpsHandler :: "inMemContents \<Rightarrow> request \<Rightarrow> responseWriter" where
  "httpsHandler store req =
     serveContents
       (HeaderAdd newResponseWriter ''Strict-Transport-Security''
          ''max-age=63072000; includeSubDomains'')
       req store"

section \<open>Vocabulary of the statements\<close>

text \<open>
  The grammar of the specifiers speaks of \<open>DIGITS\<close>: a non-empty string of decimal
  digits, and the number it denotes.
\<close>

fun decimalFrom :: "nat \<Rightarrow> string \<Rightarrow> nat" where
  "decimalFrom v [] = v"
| "decimalFrom v (c # cs) = decimalFrom (10 * v + digitVal c) cs"

definition decimal :: "string \<Rightarrow> nat" where
  "decimal s = decimalFrom 0 s"

definition isDigits :: "string \<Rightarrow> bool" where
  "isDigits s = (s \<noteq> [] \<and> list_all isDigit s)"

text \<open>
  The decimal texts of the response headers, read back: an optional minus sign and
  digits, and the integer they denote.
\<close>

definition isSignedDigits :: "string \<Rightarrow> bool" where
  "isSignedDigits s =
     (case s of [] \<Rightarrow> False | c # cs \<Rightarrow> if c = CHR ''-'' then isDigits cs else isDigits s)"

definition decimalInt :: "string \<Rightarrow> int" where
  "decimalInt s =
     (case s of [] \<Rightarrow> 0
      | c # cs \<Rightarrow> if c = CHR ''-'' then - int (decimal cs) else int (decimal s))"

text \<open>
  The specifier a request carries: the string that \<open>serveContents\<close> passes to
  \<open>writeContentRange\<close>, found by the same lookups in the same order, and the empty
  string when \<open>serveContents\<close> finds none and serves the whole content.
\<close>

definition selectedSpecifier :: "request \<Rightarrow> string" where
  "selectedSpecifier req =
     (let rangeHeader0 = Get (reqHeader req) ''Range'';
          rangeHeader = (if rangeHeader0 = [] then Get (reqHeader req) ''range'' else rangeHeader0)
      in if rangeHeader \<noteq> [] then rangeHeader
         else
           (let xRangeHeader0 = Get (reqHeader req) ''X-Dolt-Range'';
                xRangeHeader = (if xRangeHeader0 = [] then Get (reqHeader req) ''x-dolt-range''
                                else xRangeHeader0)
            in if xRangeHeader \<noteq> [] then xRangeHeader
               else
                 (let rangeParam0 = QueryGet (reqQuery req) ''Range''
                  in if rangeParam0 = [] then QueryGet (reqQuery req) ''range''
                     else rangeParam0)))"

section \<open>Decimal tokens\<close>

lemma decimalFrom_ge: "v \<le> decimalFrom v s"
proof (induction s arbitrary: v)
  case Nil
  show ?case by simp
next
  case (Cons c cs)
  have "v \<le> 10 * v + digitVal c" by simp
  also have "\<dots> \<le> decimalFrom (10 * v + digitVal c) cs" by (rule Cons.IH)
  finally show ?case by simp
qed

lemma digitVal_le: "isDigit c \<Longrightarrow> digitVal c \<le> 9"
  unfolding isDigit_def digitVal_def by (simp, arith)

lemma unat_cutoff: "unat cutoff = 1844674407370955162"
  by (simp add: cutoff_def)

lemma parseLoop_step_ok:
  fixes n :: uint64
  assumes d: "d \<le> 9" and small: "\<not> cutoff \<le> n" and nowrap: "\<not> n * 10 + of_nat d < n * 10"
  shows "unat (n * 10 + of_nat d) = 10 * unat n + d"
proof -
  have n: "unat n < 1844674407370955162"
    using small by (simp add: word_le_nat_alt unat_cutoff)
  have m: "unat (n * 10) = unat n * 10"
    using n by (simp add: unat_word_ariths)
  have ud: "unat (of_nat d :: uint64) = d"
    using d by (simp add: unat_of_nat)
  have "n * 10 \<le> n * 10 + of_nat d"
    using nowrap by simp
  then have "unat (n * 10 + of_nat d) = unat (n * 10) + unat (of_nat d :: uint64)"
    by (simp add: unat_plus_simple)
  then show ?thesis by (simp add: m ud)
qed

lemma parseLoop_step_wrap:
  fixes n :: uint64
  assumes d: "d \<le> 9" and small: "\<not> cutoff \<le> n" and wrap: "n * 10 + of_nat d < n * 10"
  shows "2 ^ 64 \<le> 10 * unat n + d"
proof -
  have n: "unat n < 1844674407370955162"
    using small by (simp add: word_le_nat_alt unat_cutoff)
  have m: "unat (n * 10) = unat n * 10"
    using n by (simp add: unat_word_ariths)
  have ud: "unat (of_nat d :: uint64) = d"
    using d by (simp add: unat_of_nat)
  have "\<not> n * 10 \<le> n * 10 + of_nat d"
    using wrap by simp
  then have "\<not> unat (n * 10) + unat (of_nat d :: uint64) < 2 ^ 64"
    by (simp add: no_olen_add_nat)
  then show ?thesis by (simp add: m ud)
qed

lemma parseLoop_digits:
  "list_all isDigit s \<Longrightarrow>
   parseLoop n s =
     (if decimalFrom (unat n) s < 2 ^ 64 then Inr (of_nat (decimalFrom (unat n) s))
      else Inl NumErrRange)"
proof (induction s arbitrary: n)
  case Nil
  have "unat n < 2 ^ 64" using unsigned_less [of n, where ?'a = nat] by simp
  then show ?case by simp
next
  case (Cons c cs)
  then have dg: "isDigit c" and rest: "list_all isDigit cs" by simp_all
  have d: "digitVal c \<le> 9" using dg by (rule digitVal_le)
  show ?case
  proof (cases "cutoff \<le> n")
    case True
    then have "1844674407370955162 \<le> unat n"
      by (simp add: word_le_nat_alt unat_cutoff)
    then have "(2::nat) ^ 64 \<le> 10 * unat n + digitVal c" by simp
    also have "\<dots> \<le> decimalFrom (10 * unat n + digitVal c) cs" by (rule decimalFrom_ge)
    finally have "\<not> decimalFrom (unat n) (c # cs) < 2 ^ 64" by simp
    then show ?thesis using dg True by simp
  next
    case small: False
    show ?thesis
    proof (cases "n * 10 + of_nat (digitVal c) < n * 10")
      case True
      have "(2::nat) ^ 64 \<le> 10 * unat n + digitVal c"
        using d small True by (rule parseLoop_step_wrap)
      also have "\<dots> \<le> decimalFrom (10 * unat n + digitVal c) cs" by (rule decimalFrom_ge)
      finally have "\<not> decimalFrom (unat n) (c # cs) < 2 ^ 64" by simp
      then show ?thesis using dg small True by (simp add: Let_def)
    next
      case False
      have u: "unat (n * 10 + of_nat (digitVal c)) = 10 * unat n + digitVal c"
        using d small False by (rule parseLoop_step_ok)
      have "parseLoop n (c # cs) = parseLoop (n * 10 + of_nat (digitVal c)) cs"
        using dg small False by (simp add: Let_def)
      also note Cons.IH [OF rest, of "n * 10 + of_nat (digitVal c)"]
      finally show ?thesis by (simp add: u)
    qed
  qed
qed

lemma ParseUint_digits:
  "isDigits s \<Longrightarrow>
   ParseUint s = (if decimal s < 2 ^ 64 then Inr (of_nat (decimal s)) else Inl NumErrRange)"
  using parseLoop_digits [of s 0] by (simp add: ParseUint_def isDigits_def decimal_def)

lemma Split_no_sep: "sep \<notin> set s \<Longrightarrow> Split s sep = [s]"
  by (induction s) auto

lemma Split_append: "sep \<notin> set a \<Longrightarrow> Split (a @ sep # b) sep = a # Split b sep"
  by (induction a) (auto split: list.splits)

lemma Split_two: "sep \<notin> set a \<Longrightarrow> sep \<notin> set b \<Longrightarrow> Split (a @ sep # b) sep = [a, b]"
  by (simp add: Split_append Split_no_sep)

section \<open>White space and the three forms of a specifier\<close>

lemma isDigit_not_space: "isDigit c \<Longrightarrow> \<not> isAsciiSpace c"
  by (auto simp: isDigit_def isAsciiSpace_def)

lemma isDigit_not_lead1: "isDigit c \<Longrightarrow> \<not> isSpaceTail1 c d"
  by (auto simp: isDigit_def isSpaceTail1_def)

lemma isDigit_not_lead2: "isDigit c \<Longrightarrow> \<not> isSpaceTail2 c d e"
  by (auto simp: isDigit_def isSpaceTail2_def)

lemma isDigit_not_last1: "isDigit d \<Longrightarrow> \<not> isSpaceTail1 c d"
  by (auto simp: isDigit_def isSpaceTail1_def)

lemma isDigit_not_last2: "isDigit e \<Longrightarrow> \<not> isSpaceTail2 c d e"
  by (auto simp: isDigit_def isSpaceTail2_def)

lemma spaceWidth_digit: "isDigit c \<Longrightarrow> spaceWidth (c # cs) = 0"
  by (cases "c # cs" rule: spaceWidth.cases)
     (simp_all add: isDigit_not_space isDigit_not_lead1 isDigit_not_lead2)

lemma spaceWidthRev_digit: "isDigit c \<Longrightarrow> spaceWidthRev (c # cs) = 0"
  by (cases "c # cs" rule: spaceWidthRev.cases)
     (simp_all add: isDigit_not_space isDigit_not_last1 isDigit_not_last2)

lemma spaceWidth_ascii: "isAsciiSpace c \<Longrightarrow> spaceWidth (c # cs) = 1"
  by (cases "c # cs" rule: spaceWidth.cases) simp_all

lemma spaceWidthRev_ascii: "isAsciiSpace c \<Longrightarrow> spaceWidthRev (c # cs) = 1"
  by (cases "c # cs" rule: spaceWidthRev.cases) simp_all

lemma trimLeftSpace_digit: "isDigit c \<Longrightarrow> trimLeftSpace (c # cs) = c # cs"
  by (simp add: spaceWidth_digit)

lemma trimRevSpace_digit: "isDigit c \<Longrightarrow> trimRevSpace (c # cs) = c # cs"
  by (simp add: spaceWidthRev_digit)

lemma trimLeftSpace_ascii:
  "list_all isAsciiSpace w \<Longrightarrow> trimLeftSpace (w @ s) = trimLeftSpace s"
  by (induction w) (simp_all add: spaceWidth_ascii)

lemma trimRevSpace_ascii:
  "list_all isAsciiSpace w \<Longrightarrow> trimRevSpace (w @ s) = trimRevSpace s"
  by (induction w) (simp_all add: spaceWidthRev_ascii)

lemma TrimSpace_padded:
  assumes a: "isDigits a" and w1: "list_all isAsciiSpace w1" and w2: "list_all isAsciiSpace w2"
  shows "TrimSpace (w1 @ a @ w2) = a"
proof -
  from a obtain c cs where acs: "a = c # cs" and c: "isDigit c"
    by (cases a) (auto simp: isDigits_def)
  from a have "a \<noteq> []" and all: "list_all isDigit a" by (simp_all add: isDigits_def)
  then obtain d ds where rv: "rev a = d # ds" and d: "isDigit d"
    by (cases "rev a") (auto simp: list_all_iff dest: arg_cong [where f = set])
  have l: "trimLeftSpace (w1 @ a @ w2) = a @ w2"
    using w1 c by (simp add: trimLeftSpace_ascii acs spaceWidth_digit)
  have "trimRevSpace (rev (a @ w2)) = trimRevSpace (rev a)"
    using w2 by (simp add: trimRevSpace_ascii list_all_iff)
  also have "\<dots> = rev a"
    unfolding rv using d by (rule trimRevSpace_digit)
  finally show ?thesis by (simp add: TrimSpace_def l)
qed

lemma list_all_not_mem: "list_all P xs \<Longrightarrow> \<not> P x \<Longrightarrow> x \<notin> set xs"
  by (auto simp: list_all_iff)

lemma dash_not_digit: "list_all isDigit a \<Longrightarrow> CHR ''-'' \<notin> set a"
  using list_all_not_mem [of isDigit a "CHR ''-''"] by (simp add: isDigit_def)

lemma dash_not_space: "list_all isAsciiSpace a \<Longrightarrow> CHR ''-'' \<notin> set a"
  using list_all_not_mem [of isAsciiSpace a "CHR ''-''"] by (simp add: isAsciiSpace_def)

lemma dash_not_padded:
  "isDigits a \<Longrightarrow> list_all isAsciiSpace w1 \<Longrightarrow> list_all isAsciiSpace w2 \<Longrightarrow>
   CHR ''-'' \<notin> set (w1 @ a @ w2)"
  using dash_not_digit [of a] dash_not_space [of w1] dash_not_space [of w2]
  by (simp add: isDigits_def)

lemma parse_tokens_suffix:
  assumes "CHR ''-'' \<notin> set t1"
  shows "offsetAndLenFromRange (''bytes=-'' @ t1) contentSize =
     (case ParseUint (TrimSpace t1) of
        Inl err \<Rightarrow> Inl ErrInvalidRangeStr
      | Inr len \<Rightarrow> Inr (contentSize - len, len))"
proof -
  have "Split ([] @ CHR ''-'' # t1) (CHR ''-'') = [[], t1]"
    using assms by (simp add: Split_no_sep)
  then show ?thesis
    by (simp add: offsetAndLenFromRange_def HasPrefix_def)
qed

lemma parse_tokens_prefix:
  assumes "CHR ''-'' \<notin> set t0" and "t0 \<noteq> []"
  shows "offsetAndLenFromRange (''bytes='' @ t0 @ ''-'') contentSize =
     (case ParseUint (TrimSpace t0) of
        Inl err \<Rightarrow> Inl err
      | Inr offset \<Rightarrow> Inr (offset, contentSize - offset))"
proof -
  have "Split (t0 @ CHR ''-'' # []) (CHR ''-'') = [t0, []]"
    using assms(1) by (simp add: Split_two)
  then show ?thesis
    using assms(2) by (simp add: offsetAndLenFromRange_def HasPrefix_def)
qed

lemma parse_tokens_full:
  assumes "CHR ''-'' \<notin> set t0" and "t0 \<noteq> []" and "CHR ''-'' \<notin> set t1" and "t1 \<noteq> []"
  shows "offsetAndLenFromRange (''bytes='' @ t0 @ ''-'' @ t1) contentSize =
     (case ParseUint (TrimSpace t0) of
        Inl err \<Rightarrow> Inl err
      | Inr start \<Rightarrow>
          (case ParseUint (TrimSpace t1) of
             Inl err \<Rightarrow> Inl err
           | Inr end \<Rightarrow> Inr (start, (end - start) + 1)))"
proof -
  have "Split (t0 @ CHR ''-'' # t1) (CHR ''-'') = [t0, t1]"
    using assms(1,3) by (rule Split_two)
  then show ?thesis
    using assms(2,4) by (simp add: offsetAndLenFromRange_def HasPrefix_def)
qed

lemma parse_suffix_padded:
  assumes b: "isDigits b" and w3: "list_all isAsciiSpace w3" and w4: "list_all isAsciiSpace w4"
  shows "offsetAndLenFromRange (''bytes=-'' @ w3 @ b @ w4) contentSize =
     (if decimal b < 2 ^ 64 then Inr (contentSize - of_nat (decimal b), of_nat (decimal b))
      else Inl ErrInvalidRangeStr)"
proof -
  have "CHR ''-'' \<notin> set (w3 @ b @ w4)" using b w3 w4 by (rule dash_not_padded)
  then have "offsetAndLenFromRange (''bytes=-'' @ w3 @ b @ w4) contentSize =
     (case ParseUint (TrimSpace (w3 @ b @ w4)) of
        Inl err \<Rightarrow> Inl ErrInvalidRangeStr
      | Inr len \<Rightarrow> Inr (contentSize - len, len))"
    by (rule parse_tokens_suffix)
  also have "TrimSpace (w3 @ b @ w4) = b" using b w3 w4 by (rule TrimSpace_padded)
  finally show ?thesis by (simp add: ParseUint_digits [OF b])
qed

lemma parse_prefix_padded:
  assumes a: "isDigits a" and w1: "list_all isAsciiSpace w1" and w2: "list_all isAsciiSpace w2"
  shows "offsetAndLenFromRange (''bytes='' @ w1 @ a @ w2 @ ''-'') contentSize =
     (if decimal a < 2 ^ 64 then Inr (of_nat (decimal a), contentSize - of_nat (decimal a))
      else Inl NumErrRange)"
proof -
  have d: "CHR ''-'' \<notin> set (w1 @ a @ w2)" using a w1 w2 by (rule dash_not_padded)
  have ne: "w1 @ a @ w2 \<noteq> []" using a by (simp add: isDigits_def)
  have "offsetAndLenFromRange (''bytes='' @ (w1 @ a @ w2) @ ''-'') contentSize =
     (case ParseUint (TrimSpace (w1 @ a @ w2)) of
        Inl err \<Rightarrow> Inl err
      | Inr offset \<Rightarrow> Inr (offset, contentSize - offset))"
    using d ne by (rule parse_tokens_prefix)
  also have "TrimSpace (w1 @ a @ w2) = a" using a w1 w2 by (rule TrimSpace_padded)
  finally show ?thesis by (simp add: ParseUint_digits [OF a])
qed

lemma parse_full_padded:
  assumes a: "isDigits a" and w1: "list_all isAsciiSpace w1" and w2: "list_all isAsciiSpace w2"
    and b: "isDigits b" and w3: "list_all isAsciiSpace w3" and w4: "list_all isAsciiSpace w4"
  shows "offsetAndLenFromRange (''bytes='' @ w1 @ a @ w2 @ ''-'' @ w3 @ b @ w4) contentSize =
     (if decimal a < 2 ^ 64 then
        (if decimal b < 2 ^ 64
         then Inr (of_nat (decimal a), of_nat (decimal b) - of_nat (decimal a) + 1)
         else Inl NumErrRange)
      else Inl NumErrRange)"
proof -
  have d0: "CHR ''-'' \<notin> set (w1 @ a @ w2)" using a w1 w2 by (rule dash_not_padded)
  have d1: "CHR ''-'' \<notin> set (w3 @ b @ w4)" using b w3 w4 by (rule dash_not_padded)
  have ne0: "w1 @ a @ w2 \<noteq> []" using a by (simp add: isDigits_def)
  have ne1: "w3 @ b @ w4 \<noteq> []" using b by (simp add: isDigits_def)
  have ta: "TrimSpace (w1 @ a @ w2) = a" using a w1 w2 by (rule TrimSpace_padded)
  have tb: "TrimSpace (w3 @ b @ w4) = b" using b w3 w4 by (rule TrimSpace_padded)
  have "offsetAndLenFromRange (''bytes='' @ (w1 @ a @ w2) @ ''-'' @ (w3 @ b @ w4)) contentSize =
     (case ParseUint (TrimSpace (w1 @ a @ w2)) of
        Inl err \<Rightarrow> Inl err
      | Inr start \<Rightarrow>
          (case ParseUint (TrimSpace (w3 @ b @ w4)) of
             Inl err \<Rightarrow> Inl err
           | Inr end \<Rightarrow> Inr (start, (end - start) + 1)))"
    using d0 ne0 d1 ne1 by (rule parse_tokens_full)
  then show ?thesis
    unfolding ta tb by (simp add: ParseUint_digits [OF a] ParseUint_digits [OF b])
qed

section \<open>Signed arithmetic and the store\<close>

lemma sint_of_nat_small: "n < 2 ^ 63 \<Longrightarrow> sint (of_nat n :: int64) = int n"
  by (simp add: signed_of_nat signed_take_bit_int_eq_self)

lemma sint_range: "- (2 ^ 63) \<le> sint (x :: int64) \<and> sint x < 2 ^ 63"
  using sint_ge [of x] sint_lt [of x] by simp

lemma sint_diff_nowrap:
  "- (2 ^ 63) \<le> sint a - sint b \<Longrightarrow> sint a - sint b < 2 ^ 63 \<Longrightarrow>
   sint (a - b :: int64) = sint a - sint b"
  by (simp add: sint_word_diff signed_take_bit_int_eq_self)

lemma sint_Len: "length (contents c) < 2 ^ 63 \<Longrightarrow> sint (Len c) = int (length (contents c))"
  by (simp add: Len_def sint_of_nat_small)

lemma ReadRange_eq:
  assumes "length (contents c) < 2 ^ 63"
  shows "ReadRange c start end =
     (if sint end < sint start \<or> int (length (contents c)) < sint end \<or> sint start < 0
      then Inl ErrInvalidRange
      else Inr (take (nat (sint end) - nat (sint start)) (drop (nat (sint start)) (contents c))))"
  by (simp add: ReadRange_def sliceBytes_def word_sless_alt word_sle_eq sint_Len [OF assms])

lemma ReadRange_Inr:
  assumes inv: "length (contents c) < 2 ^ 63" and ok: "ReadRange c start end = Inr b"
  shows "0 \<le> sint start \<and> sint start \<le> sint end \<and> sint end \<le> int (length (contents c))
     \<and> int (length b) = sint end - sint start"
  using ok unfolding ReadRange_eq [OF inv] by (auto split: if_splits)

lemma ReadRange_Inl:
  assumes inv: "length (contents c) < 2 ^ 63" and bad: "ReadRange c start end = Inl e"
  shows "e = ErrInvalidRange"
  using bad unfolding ReadRange_eq [OF inv] by (auto split: if_splits)

lemma window_length:
  assumes inv: "length (contents c) < 2 ^ 63"
    and ok: "ReadRange c offset (offset + len) = Inr b"
  shows "sint len = int (length b)" and "of_nat (length b) = len"
    and "sint (offset + len - 1) = sint (offset + len) - 1"
proof -
  note r = ReadRange_Inr [OF inv ok]
  have up: "sint (offset + len) < 2 ^ 63" using sint_range [of "offset + len"] by simp
  have "sint (offset + len - offset) = sint (offset + len) - sint offset"
    using r up by (intro sint_diff_nowrap) auto
  then show l: "sint len = int (length b)" using r by simp
  have "len = of_int (sint len)" by simp
  also have "\<dots> = of_nat (length b)" unfolding l by simp
  finally show "of_nat (length b) = len" by simp
  have "sint (offset + len - 1) = sint (offset + len) - sint (1 :: int64)"
    using r up by (intro sint_diff_nowrap) auto
  then show "sint (offset + len - 1) = sint (offset + len) - 1" by simp
qed

lemma canon_keys:
  "CanonicalHeaderKey ''Range'' = ''Range''"
  "CanonicalHeaderKey ''range'' = ''Range''"
  "CanonicalHeaderKey ''X-Dolt-Range'' = ''X-Dolt-Range''"
  "CanonicalHeaderKey ''x-dolt-range'' = ''X-Dolt-Range''"
  "CanonicalHeaderKey ''Accept-Ranges'' = ''Accept-Ranges''"
  "CanonicalHeaderKey ''Content-Range'' = ''Content-Range''"
  "CanonicalHeaderKey ''Content-Length'' = ''Content-Length''"
  "CanonicalHeaderKey ''Strict-Transport-Security'' = ''Strict-Transport-Security''"
  by (simp_all add: CanonicalHeaderKey_def validHeaderFieldByte_def isLower_def isUpper_def
      isDigit_def Let_def char_of_def bit_Suc_0_iff)

lemma Get_lower:
  "Get h ''range'' = Get h ''Range''" "Get h ''x-dolt-range'' = Get h ''X-Dolt-Range''"
  by (simp_all add: Get_def canon_keys)

lemma wcr_bad_parse:
  "offsetAndLenFromRange s (Len store) = Inl e \<Longrightarrow>
   writeContentRange w store s = WriteHeader w 400"
  by (simp add: writeContentRange_def)

lemma wcr_bad_range:
  assumes inv: "length (contents store) < 2 ^ 63"
    and p: "offsetAndLenFromRange s (Len store) = Inr (offset, len)"
    and r: "ReadRange store offset (offset + len) = Inl e"
  shows "writeContentRange w store s = WriteHeader w 400"
proof -
  have "e = ErrInvalidRange" using inv r by (rule ReadRange_Inl)
  then show ?thesis using p r by (simp add: writeContentRange_def)
qed

section \<open>The answers of the handler\<close>

lemma Add_apply:
  "Add h k v k' = (if k' = CanonicalHeaderKey k then h k' @ [v] else h k')"
  by (simp add: Add_def)

lemma serveContents_other_method:
  assumes "reqMethod req \<noteq> ''GET''" and "\<not> wroteHeader w"
  shows "serveContents w req store =
     w\<lparr>wroteHeader := True, statusCode := 400, sentHeader := rwHeader w,
       body := body w @ ''only GET requests supported.''\<rparr>"
  using assms by (simp add: serveContents_def Write_def WriteHeader_def Let_def)

lemma serveContents_specifier:
  assumes "reqMethod req = ''GET''" and "selectedSpecifier req \<noteq> []"
  shows "serveContents w req store =
     writeContentRange (HeaderAdd w ''Accept-Ranges'' ''bytes'') store (selectedSpecifier req)"
  using assms by (auto simp: serveContents_def selectedSpecifier_def Let_def split: if_splits)

lemma serveContents_absent:
  assumes "reqMethod req = ''GET''" and "selectedSpecifier req = []" and "\<not> wroteHeader w"
  shows "serveContents w req store =
     w\<lparr>rwHeader := Add (Add (rwHeader w) ''Accept-Ranges'' ''bytes'')
                    ''Content-Length'' (FormatInt (Len store)),
       wroteHeader := True, statusCode := 200,
       sentHeader := Add (Add (rwHeader w) ''Accept-Ranges'' ''bytes'')
                    ''Content-Length'' (FormatInt (Len store)),
       body := body w @ contents store\<rparr>"
  using assms
  by (auto simp: serveContents_def selectedSpecifier_def Let_def Write_def WriteHeader_def
      HeaderAdd_def ReadAll_def Len_def split: if_splits)

lemma wcr_ok:
  assumes inv: "length (contents store) < 2 ^ 63"
    and fresh: "\<not> wroteHeader w"
    and p: "offsetAndLenFromRange s (Len store) = Inr (offset, len)"
    and r: "ReadRange store offset (offset + len) = Inr b"
  shows "writeContentRange w store s =
     w\<lparr>rwHeader := Add (Add (rwHeader w) ''Content-Range''
                      (''bytes '' @ FormatInt offset @ ''-'' @ FormatInt (offset + len - 1)
                         @ ''/'' @ FormatInt (Len store)))
                    ''Content-Length'' (FormatInt len),
       wroteHeader := True, statusCode := 206,
       sentHeader := Add (Add (rwHeader w) ''Content-Range''
                      (''bytes '' @ FormatInt offset @ ''-'' @ FormatInt (offset + len - 1)
                         @ ''/'' @ FormatInt (Len store)))
                    ''Content-Length'' (FormatInt len),
       body := body w @ b\<rparr>"
proof -
  have n: "of_nat (length b) = len" using inv r by (rule window_length)
  show ?thesis
    using p r fresh n
    by (simp add: writeContentRange_def Let_def Write_def WriteHeader_def HeaderAdd_def)
qed

text \<open>The writers the two servers start from.\<close>

lemma handler_writer:
  assumes "r = httpHandler store req \<or> r = httpsHandler store req"
  obtains w where "r = serveContents w req store" and "\<not> wroteHeader w" and "body w = []"
    and "rwHeader w ''Accept-Ranges'' = []" and "rwHeader w ''Content-Range'' = []"
    and "rwHeader w ''Content-Length'' = []"
proof (cases "r = httpHandler store req")
  case True
  show ?thesis
    by (rule that [of newResponseWriter])
       (simp_all add: True httpHandler_def newResponseWriter_def)
next
  case False
  with assms have "r = httpsHandler store req" by simp
  then show ?thesis
    by (intro that [of "HeaderAdd newResponseWriter ''Strict-Transport-Security''
          ''max-age=63072000; includeSubDomains''"])
       (simp_all add: httpsHandler_def newResponseWriter_def HeaderAdd_def Add_apply canon_keys)
qed

text \<open>The four answers of a handler.\<close>

lemma handler_other_method:
  assumes h: "r = httpHandler store req \<or> r = httpsHandler store req"
    and m: "reqMethod req \<noteq> ''GET''"
  shows "statusCode r = 400" and "sentHeader r ''Accept-Ranges'' = []"
    and "sentHeader r ''Content-Range'' = []" and "wroteHeader r"
proof -
  from h obtain w where w: "r = serveContents w req store" "\<not> wroteHeader w" "body w = []"
     "rwHeader w ''Accept-Ranges'' = []" "rwHeader w ''Content-Range'' = []"
     "rwHeader w ''Content-Length'' = []"
    by (rule handler_writer)
  have e: "r = w\<lparr>wroteHeader := True, statusCode := 400, sentHeader := rwHeader w,
       body := body w @ ''only GET requests supported.''\<rparr>"
    unfolding w(1) using m w(2) by (rule serveContents_other_method)
  show "statusCode r = 400" and "sentHeader r ''Accept-Ranges'' = []"
    and "sentHeader r ''Content-Range'' = []" and "wroteHeader r"
    using w(2-) by (simp_all add: e)
qed

lemma handler_absent:
  assumes h: "r = httpHandler store req \<or> r = httpsHandler store req"
    and m: "reqMethod req = ''GET''" and s: "selectedSpecifier req = []"
  shows "statusCode r = 200" and "sentHeader r ''Accept-Ranges'' = [''bytes'']"
    and "sentHeader r ''Content-Range'' = []"
    and "sentHeader r ''Content-Length'' = [FormatInt (Len store)]"
    and "body r = contents store" and "wroteHeader r"
proof -
  from h obtain w where w: "r = serveContents w req store" "\<not> wroteHeader w" "body w = []"
     "rwHeader w ''Accept-Ranges'' = []" "rwHeader w ''Content-Range'' = []"
     "rwHeader w ''Content-Length'' = []"
    by (rule handler_writer)
  note e = serveContents_absent [OF m s w(2), of store, folded w(1)]
  show "statusCode r = 200" and "sentHeader r ''Accept-Ranges'' = [''bytes'']"
    and "sentHeader r ''Content-Range'' = []"
    and "sentHeader r ''Content-Length'' = [FormatInt (Len store)]"
    and "body r = contents store" and "wroteHeader r"
    using w(2-) by (simp_all add: e Add_apply canon_keys)
qed

lemma handler_rejected:
  assumes h: "r = httpHandler store req \<or> r = httpsHandler store req"
    and inv: "length (contents store) < 2 ^ 63"
    and m: "reqMethod req = ''GET''" and s: "selectedSpecifier req \<noteq> []"
    and bad: "(\<exists>e. offsetAndLenFromRange (selectedSpecifier req) (Len store) = Inl e)
       \<or> (\<exists>offset len e. offsetAndLenFromRange (selectedSpecifier req) (Len store) = Inr (offset, len)
             \<and> ReadRange store offset (offset + len) = Inl e)"
  shows "statusCode r = 400" and "sentHeader r ''Accept-Ranges'' = [''bytes'']"
    and "sentHeader r ''Content-Range'' = []" and "sentHeader r ''Content-Length'' = []"
    and "body r = []" and "wroteHeader r"
proof -
  from h obtain w where w: "r = serveContents w req store" "\<not> wroteHeader w" "body w = []"
     "rwHeader w ''Accept-Ranges'' = []" "rwHeader w ''Content-Range'' = []"
     "rwHeader w ''Content-Length'' = []"
    by (rule handler_writer)
  let ?w = "HeaderAdd w ''Accept-Ranges'' ''bytes''"
  have "writeContentRange ?w store (selectedSpecifier req) = WriteHeader ?w 400"
    using bad wcr_bad_parse wcr_bad_range [OF inv] by blast
  then have e: "r = WriteHeader ?w 400"
    unfolding w(1) serveContents_specifier [OF m s] .
  show "statusCode r = 400" and "sentHeader r ''Accept-Ranges'' = [''bytes'']"
    and "sentHeader r ''Content-Range'' = []" and "sentHeader r ''Content-Length'' = []"
    and "body r = []" and "wroteHeader r"
    using w(2-) by (simp_all add: e WriteHeader_def HeaderAdd_def Add_apply canon_keys)
qed

lemma handler_partial:
  assumes h: "r = httpHandler store req \<or> r = httpsHandler store req"
    and inv: "length (contents store) < 2 ^ 63"
    and m: "reqMethod req = ''GET''" and s: "selectedSpecifier req \<noteq> []"
    and p: "offsetAndLenFromRange (selectedSpecifier req) (Len store) = Inr (offset, len)"
    and rd: "ReadRange store offset (offset + len) = Inr b"
  shows "statusCode r = 206" and "sentHeader r ''Accept-Ranges'' = [''bytes'']"
    and "sentHeader r ''Content-Range'' =
           [''bytes '' @ FormatInt offset @ ''-'' @ FormatInt (offset + len - 1)
              @ ''/'' @ FormatInt (Len store)]"
    and "sentHeader r ''Content-Length'' = [FormatInt len]"
    and "body r = b" and "wroteHeader r"
proof -
  from h obtain w where w: "r = serveContents w req store" "\<not> wroteHeader w" "body w = []"
     "rwHeader w ''Accept-Ranges'' = []" "rwHeader w ''Content-Range'' = []"
     "rwHeader w ''Content-Length'' = []"
    by (rule handler_writer)
  let ?w = "HeaderAdd w ''Accept-Ranges'' ''bytes''"
  have f: "\<not> wroteHeader ?w" using w(2) by (simp add: HeaderAdd_def)
  note e = wcr_ok [OF inv f p rd, folded serveContents_specifier [OF m s], folded w(1)]
  show "statusCode r = 206" and "sentHeader r ''Accept-Ranges'' = [''bytes'']"
    and "sentHeader r ''Content-Range'' =
           [''bytes '' @ FormatInt offset @ ''-'' @ FormatInt (offset + len - 1)
              @ ''/'' @ FormatInt (Len store)]"
    and "sentHeader r ''Content-Length'' = [FormatInt len]"
    and "body r = b" and "wroteHeader r"
    using w(2-) by (simp_all add: e HeaderAdd_def Add_apply canon_keys)
qed

text \<open>Unfolding the parser on a concrete string.\<close>

lemmas evals = offsetAndLenFromRange_def HasPrefix_def TrimSpace_def ParseUint_def isDigit_def
  digitVal_def cutoff_def isAsciiSpace_def isSpaceTail1_def isSpaceTail2_def word_le_nat_alt
  word_less_nat_alt

section \<open>Further facts used by the claims\<close>

lemma digit_char:
  assumes "k < 10"
  shows "isDigit (char_of (48 + k))" and "digitVal (char_of (48 + k)) = k"
  using assms by (simp_all add: isDigit_def digitVal_def)

lemma decimalFrom_snoc: "decimalFrom v (xs @ [c]) = 10 * decimalFrom v xs + digitVal c"
  by (induction xs arbitrary: v) simp_all

lemma natDigits_all: "list_all isDigit (natDigits n)"
proof (induction n rule: natDigits.induct)
  case (1 n)
  show ?case
  proof (cases "n < 10")
    case True
    then show ?thesis by (subst natDigits.simps) (simp add: digit_char)
  next
    case False
    have "n mod 10 < 10" by simp
    then have "isDigit (char_of (48 + n mod 10))" by (rule digit_char)
    then show ?thesis using False 1 by (subst natDigits.simps) simp
  qed
qed

lemma natDigits_ne: "natDigits n \<noteq> []"
  by (subst natDigits.simps) simp

lemma isDigits_natDigits: "isDigits (natDigits n)"
  by (simp add: isDigits_def natDigits_all natDigits_ne)

lemma decimal_natDigits: "decimal (natDigits n) = n"
proof (induction n rule: natDigits.induct)
  case (1 n)
  show ?case
  proof (cases "n < 10")
    case True
    then show ?thesis by (subst natDigits.simps) (simp add: decimal_def digit_char)
  next
    case False
    have d: "digitVal (char_of (48 + n mod 10)) = n mod 10" by (rule digit_char) simp
    have "decimal (natDigits n) = 10 * decimal (natDigits (n div 10)) + n mod 10"
      using False by (subst natDigits.simps) (simp add: decimal_def decimalFrom_snoc d)
    then show ?thesis using False 1 by simp
  qed
qed

lemma natDigits_no_sign: "natDigits n = c # cs \<Longrightarrow> c \<noteq> CHR ''-''"
  using natDigits_all [of n] by (auto simp: isDigit_def)

lemma isSignedDigits_natDigits: "isSignedDigits (natDigits n)"
  using isDigits_natDigits [of n] natDigits_no_sign [of n]
  by (cases "natDigits n") (simp_all add: isSignedDigits_def isDigits_def)

lemma decimalInt_natDigits: "decimalInt (natDigits n) = int n"
  using decimal_natDigits [of n] natDigits_no_sign [of n] natDigits_ne [of n]
  by (cases "natDigits n") (simp_all add: decimalInt_def)

lemma FormatInt_nonneg: "0 \<le> sint i \<Longrightarrow> FormatInt i = natDigits (nat (sint i))"
  by (simp add: FormatInt_def)

lemma isSignedDigits_FormatInt: "isSignedDigits (FormatInt i)"
  by (simp add: FormatInt_def isSignedDigits_natDigits)
     (simp add: isSignedDigits_def isDigits_natDigits)

lemma decimalInt_FormatInt: "decimalInt (FormatInt i) = sint i"
  by (simp add: FormatInt_def decimalInt_natDigits)
     (simp add: decimalInt_def decimal_natDigits)

lemma sint_of_nat_negative:
  assumes "2 ^ 63 \<le> n" and "n < 2 ^ 64"
  shows "sint (of_nat n :: int64) < 0"
proof -
  have "int n div 2 ^ 63 = 1" using assms by simp
  then have "bit (int n) 63" by (simp add: bit_int_def)
  then show ?thesis by (simp add: signed_of_nat)
qed

lemma parse_full:
  assumes "isDigits a" and "isDigits b"
  shows "offsetAndLenFromRange (''bytes='' @ a @ ''-'' @ b) contentSize =
     (if decimal a < 2 ^ 64 then
        (if decimal b < 2 ^ 64
         then Inr (of_nat (decimal a), of_nat (decimal b) - of_nat (decimal a) + 1)
         else Inl NumErrRange)
      else Inl NumErrRange)"
  using parse_full_padded [OF assms(1) _ _ assms(2), of "[]" "[]" "[]" "[]" contentSize] by simp

lemma parse_prefix:
  assumes "isDigits a"
  shows "offsetAndLenFromRange (''bytes='' @ a @ ''-'') contentSize =
     (if decimal a < 2 ^ 64 then Inr (of_nat (decimal a), contentSize - of_nat (decimal a))
      else Inl NumErrRange)"
  using parse_prefix_padded [OF assms, of "[]" "[]" contentSize] by simp

lemma parse_suffix:
  assumes "isDigits b"
  shows "offsetAndLenFromRange (''bytes=-'' @ b) contentSize =
     (if decimal b < 2 ^ 64 then Inr (contentSize - of_nat (decimal b), of_nat (decimal b))
      else Inl ErrInvalidRangeStr)"
  using parse_suffix_padded [OF assms, of "[]" "[]" contentSize] by simp

lemma parse_read_cases:
  obtains (bad) "(\<exists>e. offsetAndLenFromRange s (Len store) = Inl e)
       \<or> (\<exists>offset len e. offsetAndLenFromRange s (Len store) = Inr (offset, len)
             \<and> ReadRange store offset (offset + len) = Inl e)"
  | (ok) offset len b where "offsetAndLenFromRange s (Len store) = Inr (offset, len)"
      and "ReadRange store offset (offset + len) = Inr b"
proof (cases "offsetAndLenFromRange s (Len store)")
  case (Inl e)
  then show ?thesis using bad by blast
next
  case (Inr p)
  obtain offset len where pl: "p = (offset, len)" by (cases p)
  show ?thesis
  proof (cases "ReadRange store offset (offset + len)")
    case (Inl e)
    then show ?thesis using bad Inr pl by blast
  next
    case r: (Inr b)
    show ?thesis using ok [of offset len b] Inr pl r by simp
  qed
qed

lemmas handler_evals = httpHandler_def httpsHandler_def serveContents_def writeContentRange_def
  Get_def QueryGet_def canon_keys Let_def evals ReadRange_def sliceBytes_def Len_def
  word_sless_alt word_sle_eq Write_def WriteHeader_def HeaderAdd_def Add_def
  newResponseWriter_def ReadAll_def

lemmas token_evals = isDigits_def isDigit_def decimal_def digitVal_def

section \<open>The claims\<close>

subsection \<open>C1\<close>

text \<open>
  Claim C1, as amended. A GET request that carries a full-form specifier
  \<open>bytes=A-B\<close> with \<open>B + 1 < A\<close> and \<open>A\<close> no larger than the length of the store is
  answered 400 with an empty body: the parser accepts it and yields the offset \<open>A\<close> and
  the negative length \<open>B - A + 1\<close>, and the bounds check of the store rejects the
  window. (With \<open>B + 1 = A\<close> the length is zero, not negative; see the counterexample
  below.)
\<close>

theorem reversed_range_rejected:
  assumes h: "r = httpHandler store req \<or> r = httpsHandler store req"
    and m: "reqMethod req = ''GET''"
    and s: "selectedSpecifier req = ''bytes='' @ a @ ''-'' @ b"
    and a: "isDigits a" and b: "isDigits b"
    and lt: "decimal b + 1 < decimal a"
    and le: "decimal a \<le> length (contents store)"
    and inv: "length (contents store) < 2 ^ 63"
  shows "statusCode r = 400 \<and> body r = []
     \<and> (\<exists>offset len. offsetAndLenFromRange (selectedSpecifier req) (Len store) = Inr (offset, len)
           \<and> sint offset = int (decimal a)
           \<and> sint len = int (decimal b) - int (decimal a) + 1 \<and> sint len < 0
           \<and> ReadRange store offset (offset + len) = Inl ErrInvalidRange)"
proof -
  let ?A = "decimal a" and ?B = "decimal b"
  let ?off = "of_nat ?A :: int64" and ?len = "of_nat ?B - of_nat ?A + 1 :: int64"
  have A: "?A < 2 ^ 63" and B1: "?B + 1 < 2 ^ 63" using lt le inv by simp_all
  have p: "offsetAndLenFromRange (selectedSpecifier req) (Len store) = Inr (?off, ?len)"
    unfolding s parse_full [OF a b] using A B1 by simp
  have so: "sint ?off = int ?A" using A by (rule sint_of_nat_small)
  have sb: "sint (of_nat (?B + 1) :: int64) = int (?B + 1)" using B1 by (rule sint_of_nat_small)
  have len: "?len = of_nat (?B + 1) - ?off" by simp
  have sl: "sint ?len = int ?B - int ?A + 1"
    unfolding len using A B1 by (subst sint_diff_nowrap) (simp_all only: so sb, simp_all)
  have e: "?off + ?len = of_nat (?B + 1)" by simp
  have rd: "ReadRange store ?off (?off + ?len) = Inl ErrInvalidRange"
    unfolding e ReadRange_eq [OF inv] so sb using lt by simp
  have ne: "selectedSpecifier req \<noteq> []" by (simp add: s)
  have bad: "(\<exists>e. offsetAndLenFromRange (selectedSpecifier req) (Len store) = Inl e)
       \<or> (\<exists>offset len e. offsetAndLenFromRange (selectedSpecifier req) (Len store) = Inr (offset, len)
             \<and> ReadRange store offset (offset + len) = Inl e)"
    using p rd by blast
  have "statusCode r = 400" and "body r = []"
    using handler_rejected [OF h inv m ne bad] by simp_all
  moreover have "sint ?len < 0" unfolding sl using lt by simp
  ultimately show ?thesis using p so sl rd by blast
qed

text \<open>The request \<open>Range: bytes=5-3\<close> on a store of ten bytes.\<close>

theorem reversed_range_rejected_witness:
  "reqMethod \<lparr>reqMethod = ''GET'', reqHeader = (\<lambda>k. [])(''Range'' := [''bytes=5-3'']),
       reqQuery = (\<lambda>k. [])\<rparr> = ''GET''
   \<and> selectedSpecifier \<lparr>reqMethod = ''GET'', reqHeader = (\<lambda>k. [])(''Range'' := [''bytes=5-3'']),
       reqQuery = (\<lambda>k. [])\<rparr> = ''bytes='' @ ''5'' @ ''-'' @ ''3''
   \<and> isDigits ''5'' \<and> isDigits ''3'' \<and> decimal ''3'' + 1 < decimal ''5''
   \<and> decimal ''5'' \<le> length (contents \<lparr>contents = ''0123456789''\<rparr>)
   \<and> length (contents \<lparr>contents = ''0123456789''\<rparr>) < 2 ^ 63
   \<and> statusCode (httpHandler \<lparr>contents = ''0123456789''\<rparr>
        \<lparr>reqMethod = ''GET'', reqHeader = (\<lambda>k. [])(''Range'' := [''bytes=5-3'']),
         reqQuery = (\<lambda>k. [])\<rparr>) = 400"
proof -
  let ?req = "\<lparr>reqMethod = ''GET'', reqHeader = (\<lambda>k. [])(''Range'' := [''bytes=5-3'']),
       reqQuery = (\<lambda>k. [])\<rparr>"
  let ?store = "\<lparr>contents = ''0123456789''\<rparr>"
  have h: "httpHandler ?store ?req = httpHandler ?store ?req
      \<or> httpHandler ?store ?req = httpsHandler ?store ?req" by simp
  have m: "reqMethod ?req = ''GET''" by simp
  have s: "selectedSpecifier ?req = ''bytes='' @ ''5'' @ ''-'' @ ''3''"
    by (simp add: selectedSpecifier_def Get_def canon_keys)
  have a: "isDigits ''5''" and b: "isDigits ''3''" by (simp_all add: token_evals)
  have lt: "decimal ''3'' + 1 < decimal ''5''" by (simp add: token_evals)
  have le: "decimal ''5'' \<le> length (contents ?store)" by (simp add: token_evals)
  have inv: "length (contents ?store) < 2 ^ 63" by simp
  from reversed_range_rejected [OF h m s a b lt le inv]
  have "statusCode (httpHandler ?store ?req) = 400" by (rule conjunct1)
  with m s a b lt le inv show ?thesis by blast
qed

text \<open>
  Counterexample to C1 as stated: \<open>bytes=5-4\<close> has \<open>B < A\<close>, the parser yields the
  length 0, \<open>ReadRange(5, 5)\<close> succeeds, and the answer is 206 with
  \<open>Content-Range: bytes 5-4/10\<close>.
\<close>

theorem empty_window_accepted:
  "offsetAndLenFromRange ''bytes=5-4'' (Len \<lparr>contents = ''0123456789''\<rparr>) = Inr (5, 0)
   \<and> ReadRange \<lparr>contents = ''0123456789''\<rparr> 5 (5 + 0) = Inr []
   \<and> statusCode (httpHandler \<lparr>contents = ''0123456789''\<rparr>
      \<lparr>reqMethod = ''GET'', reqHeader = (\<lambda>k. [])(''Range'' := [''bytes=5-4'']),
       reqQuery = (\<lambda>k. [])\<rparr>) = 206
   \<and> sentHeader (httpHandler \<lparr>contents = ''0123456789''\<rparr>
      \<lparr>reqMethod = ''GET'', reqHeader = (\<lambda>k. [])(''Range'' := [''bytes=5-4'']),
       reqQuery = (\<lambda>k. [])\<rparr>) ''Content-Range'' = [''bytes 5-4/10'']"
  by (simp add: handler_evals FormatInt_def natDigits.simps char_of_def bit_Suc_0_iff)

subsection \<open>C2\<close>

text \<open>
  Claim C2. A specifier with the prefix and two tokens, one of them not a number, is
  to give the error of the number parser, in the suffix form too. The suffix branch
  returns \<open>errInvalidRangeStr\<close> instead (first conjunct), the error of a missing
  prefix or a wrong token count (last conjunct), while the open-prefix and the full
  branch pass on the error of \<open>strconv.ParseUint\<close>.
\<close>

theorem suffix_error_is_format_error:
  "offsetAndLenFromRange ''bytes=-abc'' 4000 = Inl ErrInvalidRangeStr
   \<and> offsetAndLenFromRange ''bytes=abc-'' 4000 = Inl NumErrSyntax
   \<and> offsetAndLenFromRange ''bytes=abc-123'' 4000 = Inl NumErrSyntax
   \<and> offsetAndLenFromRange ''bytes=abc'' 4000 = Inl ErrInvalidRangeStr"
  by (simp add: evals)

subsection \<open>C3\<close>

text \<open>
  Claim C3, as amended. Every response to a GET request carries the header
  \<open>Accept-Ranges: bytes\<close>, whichever branch answers it; a request with another method
  is answered 400 before the header is added, and its response does not carry it.
\<close>

theorem accept_ranges_on_get:
  assumes h: "r = httpHandler store req \<or> r = httpsHandler store req"
    and inv: "length (contents store) < 2 ^ 63"
  shows "(reqMethod req = ''GET'' \<longrightarrow>
            wroteHeader r \<and> sentHeader r ''Accept-Ranges'' = [''bytes''])
     \<and> (reqMethod req \<noteq> ''GET'' \<longrightarrow>
            wroteHeader r \<and> statusCode r = 400 \<and> sentHeader r ''Accept-Ranges'' = [])"
proof -
  have get: "wroteHeader r \<and> sentHeader r ''Accept-Ranges'' = [''bytes'']"
    if m: "reqMethod req = ''GET''"
  proof (cases "selectedSpecifier req = []")
    case True
    show ?thesis using handler_absent [OF h m True] by simp
  next
    case False
    show ?thesis
    proof (cases rule: parse_read_cases [of "selectedSpecifier req" store])
      case bad
      show ?thesis using handler_rejected [OF h inv m False bad] by simp
    next
      case (ok offset len b)
      show ?thesis using handler_partial [OF h inv m False ok] by simp
    qed
  qed
  have other: "wroteHeader r \<and> statusCode r = 400 \<and> sentHeader r ''Accept-Ranges'' = []"
    if m: "reqMethod req \<noteq> ''GET''"
    using handler_other_method [OF h m] by simp
  show ?thesis using get other by blast
qed

text \<open>A GET request and a HEAD request to the TLS server.\<close>

theorem accept_ranges_on_get_witness:
  "length (contents \<lparr>contents = ''0123456789''\<rparr>) < 2 ^ 63
   \<and> reqMethod \<lparr>reqMethod = ''GET'', reqHeader = (\<lambda>k. [])(''Range'' := [''bytes=2-4'']),
        reqQuery = (\<lambda>k. [])\<rparr> = ''GET''
   \<and> sentHeader (httpsHandler \<lparr>contents = ''0123456789''\<rparr>
        \<lparr>reqMethod = ''GET'', reqHeader = (\<lambda>k. [])(''Range'' := [''bytes=2-4'']),
         reqQuery = (\<lambda>k. [])\<rparr>) ''Accept-Ranges'' = [''bytes'']
   \<and> reqMethod \<lparr>reqMethod = ''HEAD'', reqHeader = (\<lambda>k. []), reqQuery = (\<lambda>k. [])\<rparr> \<noteq> ''GET''
   \<and> statusCode (httpsHandler \<lparr>contents = ''0123456789''\<rparr>
        \<lparr>reqMethod = ''HEAD'', reqHeader = (\<lambda>k. []), reqQuery = (\<lambda>k. [])\<rparr>) = 400"
proof -
  let ?req = "\<lparr>reqMethod = ''GET'', reqHeader = (\<lambda>k. [])(''Range'' := [''bytes=2-4'']),
        reqQuery = (\<lambda>k. [])\<rparr>"
  let ?req' = "\<lparr>reqMethod = ''HEAD'', reqHeader = (\<lambda>k. []), reqQuery = (\<lambda>k. [])\<rparr>"
  let ?store = "\<lparr>contents = ''0123456789''\<rparr>"
  have h: "httpsHandler ?store ?req = httpHandler ?store ?req
      \<or> httpsHandler ?store ?req = httpsHandler ?store ?req" by simp
  have h': "httpsHandler ?store ?req' = httpHandler ?store ?req'
      \<or> httpsHandler ?store ?req' = httpsHandler ?store ?req'" by simp
  have inv: "length (contents ?store) < 2 ^ 63" by simp
  have m: "reqMethod ?req = ''GET''" and m': "reqMethod ?req' \<noteq> ''GET''" by simp_all
  from accept_ranges_on_get [OF h inv] m
  have "sentHeader (httpsHandler ?store ?req) ''Accept-Ranges'' = [''bytes'']" by blast
  moreover from accept_ranges_on_get [OF h' inv] m'
  have "statusCode (httpsHandler ?store ?req') = 400" by blast
  ultimately show ?thesis using inv m m' by blast
qed

text \<open>
  Counterexample to C3 as stated: the response to a POST request has been written
  (status 400) and carries no \<open>Accept-Ranges\<close> header.
\<close>

theorem other_method_without_accept_ranges:
  "sentHeader (httpHandler \<lparr>contents = ''0123456789''\<rparr>
      \<lparr>reqMethod = ''POST'', reqHeader = (\<lambda>k. []), reqQuery = (\<lambda>k. [])\<rparr>) ''Accept-Ranges'' = []
   \<and> statusCode (httpHandler \<lparr>contents = ''0123456789''\<rparr>
      \<lparr>reqMethod = ''POST'', reqHeader = (\<lambda>k. []), reqQuery = (\<lambda>k. [])\<rparr>) = 400
   \<and> wroteHeader (httpHandler \<lparr>contents = ''0123456789''\<rparr>
      \<lparr>reqMethod = ''POST'', reqHeader = (\<lambda>k. []), reqQuery = (\<lambda>k. [])\<rparr>)"
  by (simp add: handler_evals)

subsection \<open>C4\<close>

text \<open>
  Claim C4. In every 206 response the body is the slice that \<open>ReadRange\<close> returned for
  the parsed window. The text of \<open>Content-Length\<close> is a string of digits whose number
  is the length of that body. The text of \<open>Content-Range\<close> is
  \<open>bytes {first}-{last}/{total}\<close>, where \<open>first\<close> is the digits of the offset,
  \<open>last\<close> the decimal form of \<open>offset + length - 1\<close> and \<open>total\<close> the digits of
  the length of the store, so that the declared end minus the declared start plus one is
  the declared length. A response with another status (200 or 400, the only others)
  carries no \<open>Content-Range\<close> header.
\<close>

theorem partial_content_headers:
  assumes h: "r = httpHandler store req \<or> r = httpsHandler store req"
    and inv: "length (contents store) < 2 ^ 63"
  shows "(statusCode r = 206 \<longrightarrow>
            (\<exists>offset len cl first last total.
                offsetAndLenFromRange (selectedSpecifier req) (Len store) = Inr (offset, len)
              \<and> ReadRange store offset (offset + len) = Inr (body r)
              \<and> sentHeader r ''Content-Length'' = [cl]
              \<and> cl = FormatInt len \<and> isDigits cl \<and> decimal cl = length (body r)
              \<and> sint len = int (length (body r))
              \<and> sentHeader r ''Content-Range'' =
                  [''bytes '' @ first @ ''-'' @ last @ ''/'' @ total]
              \<and> first = FormatInt offset \<and> isDigits first \<and> int (decimal first) = sint offset
              \<and> last = FormatInt (offset + len - 1) \<and> isSignedDigits last
              \<and> decimalInt last = sint (offset + len - 1)
              \<and> total = FormatInt (Len store) \<and> isDigits total
              \<and> decimal total = length (contents store)
              \<and> decimalInt last - int (decimal first) + 1 = int (decimal cl)
              \<and> sint (offset + len - 1) - sint offset + 1 = sint len
              \<and> sint (Len store) = int (length (contents store))))
     \<and> (statusCode r \<noteq> 206 \<longrightarrow> sentHeader r ''Content-Range'' = [])
     \<and> (statusCode r = 200 \<or> statusCode r = 206 \<or> statusCode r = 400)"
proof (cases "reqMethod req = ''GET''")
  case False
  show ?thesis using handler_other_method [OF h False] by simp
next
  case m: True
  show ?thesis
  proof (cases "selectedSpecifier req = []")
    case True
    show ?thesis using handler_absent [OF h m True] by simp
  next
    case False
    show ?thesis
    proof (cases rule: parse_read_cases [of "selectedSpecifier req" store])
      case bad
      show ?thesis using handler_rejected [OF h inv m False bad] by simp
    next
      case (ok offset len b)
      note p = handler_partial [OF h inv m False ok]
      have rd: "ReadRange store offset (offset + len) = Inr (body r)"
        using ok(2) p(5) by simp
      note w = window_length [OF inv rd]
      note rr = ReadRange_Inr [OF inv rd]
      note L = sint_Len [OF inv]
      have span: "sint (offset + len - 1) - sint offset + 1 = sint len"
        using w(1) w(3) rr by simp
      have fl: "FormatInt len = natDigits (length (body r))"
        using w(1) by (simp add: FormatInt_nonneg)
      have fo: "FormatInt offset = natDigits (nat (sint offset))"
        using rr by (simp add: FormatInt_nonneg)
      have ft: "FormatInt (Len store) = natDigits (length (contents store))"
        using L by (simp add: FormatInt_nonneg)
      have c1: "isDigits (FormatInt len)" "decimal (FormatInt len) = length (body r)"
        unfolding fl by (simp_all add: isDigits_natDigits decimal_natDigits)
      have c2: "isDigits (FormatInt offset)" "int (decimal (FormatInt offset)) = sint offset"
        unfolding fo using rr by (simp_all add: isDigits_natDigits decimal_natDigits)
      have c3: "isDigits (FormatInt (Len store))"
        "decimal (FormatInt (Len store)) = length (contents store)"
        unfolding ft by (simp_all add: isDigits_natDigits decimal_natDigits)
      have c4: "isSignedDigits (FormatInt (offset + len - 1))"
        "decimalInt (FormatInt (offset + len - 1)) = sint (offset + len - 1)"
        by (simp_all add: isSignedDigits_FormatInt decimalInt_FormatInt)
      have c5: "decimalInt (FormatInt (offset + len - 1)) - int (decimal (FormatInt offset)) + 1
          = int (decimal (FormatInt len))"
        unfolding c4 c2 c1 using span w(1) by simp
      have "\<exists>offset len cl first last total.
                offsetAndLenFromRange (selectedSpecifier req) (Len store) = Inr (offset, len)
              \<and> ReadRange store offset (offset + len) = Inr (body r)
              \<and> sentHeader r ''Content-Length'' = [cl]
              \<and> cl = FormatInt len \<and> isDigits cl \<and> decimal cl = length (body r)
              \<and> sint len = int (length (body r))
              \<and> sentHeader r ''Content-Range'' =
                  [''bytes '' @ first @ ''-'' @ last @ ''/'' @ total]
              \<and> first = FormatInt offset \<and> isDigits first \<and> int (decimal first) = sint offset
              \<and> last = FormatInt (offset + len - 1) \<and> isSignedDigits last
              \<and> decimalInt last = sint (offset + len - 1)
              \<and> total = FormatInt (Len store) \<and> isDigits total
              \<and> decimal total = length (contents store)
              \<and> decimalInt last - int (decimal first) + 1 = int (decimal cl)
              \<and> sint (offset + len - 1) - sint offset + 1 = sint len
              \<and> sint (Len store) = int (length (contents store))"
        using ok(1) rd p(3) p(4) c1 c2 c3 c4 c5 w(1) span L by blast
      then show ?thesis using p(1) by simp
    qed
  qed
qed

text \<open>
  A 206 response (\<open>X-Dolt-Range: bytes=2-4\<close>, with \<open>Content-Length: 3\<close> and
  \<open>Content-Range: bytes 2-4/10\<close>) and a 200 response (no specifier).
\<close>

theorem partial_content_headers_witness:
  "length (contents \<lparr>contents = ''0123456789''\<rparr>) < 2 ^ 63
   \<and> statusCode (httpHandler \<lparr>contents = ''0123456789''\<rparr>
        \<lparr>reqMethod = ''GET'', reqHeader = (\<lambda>k. [])(''X-Dolt-Range'' := [''bytes=2-4'']),
         reqQuery = (\<lambda>k. [])\<rparr>) = 206
   \<and> body (httpHandler \<lparr>contents = ''0123456789''\<rparr>
        \<lparr>reqMethod = ''GET'', reqHeader = (\<lambda>k. [])(''X-Dolt-Range'' := [''bytes=2-4'']),
         reqQuery = (\<lambda>k. [])\<rparr>) = ''234''
   \<and> sentHeader (httpHandler \<lparr>contents = ''0123456789''\<rparr>
        \<lparr>reqMethod = ''GET'', reqHeader = (\<lambda>k. [])(''X-Dolt-Range'' := [''bytes=2-4'']),
         reqQuery = (\<lambda>k. [])\<rparr>) ''Content-Length'' = [''3'']
   \<and> sentHeader (httpHandler \<lparr>contents = ''0123456789''\<rparr>
        \<lparr>reqMethod = ''GET'', reqHeader = (\<lambda>k. [])(''X-Dolt-Range'' := [''bytes=2-4'']),
         reqQuery = (\<lambda>k. [])\<rparr>) ''Content-Range'' = [''bytes 2-4/10'']
   \<and> (\<exists>cl. sentHeader (httpHandler \<lparr>contents = ''0123456789''\<rparr>
               \<lparr>reqMethod = ''GET'', reqHeader = (\<lambda>k. [])(''X-Dolt-Range'' := [''bytes=2-4'']),
                reqQuery = (\<lambda>k. [])\<rparr>) ''Content-Length'' = [cl]
         \<and> isDigits cl
         \<and> decimal cl = length (body (httpHandler \<lparr>contents = ''0123456789''\<rparr>
               \<lparr>reqMethod = ''GET'', reqHeader = (\<lambda>k. [])(''X-Dolt-Range'' := [''bytes=2-4'']),
                reqQuery = (\<lambda>k. [])\<rparr>)))
   \<and> statusCode (httpHandler \<lparr>contents = ''0123456789''\<rparr>
        \<lparr>reqMethod = ''GET'', reqHeader = (\<lambda>k. []), reqQuery = (\<lambda>k. [])\<rparr>) \<noteq> 206
   \<and> sentHeader (httpHandler \<lparr>contents = ''0123456789''\<rparr>
        \<lparr>reqMethod = ''GET'', reqHeader = (\<lambda>k. []), reqQuery = (\<lambda>k. [])\<rparr>) ''Content-Range'' = []"
proof -
  let ?req = "\<lparr>reqMethod = ''GET'', reqHeader = (\<lambda>k. [])(''X-Dolt-Range'' := [''bytes=2-4'']),
         reqQuery = (\<lambda>k. [])\<rparr>"
  let ?req' = "\<lparr>reqMethod = ''GET'', reqHeader = (\<lambda>k. []), reqQuery = (\<lambda>k. [])\<rparr>"
  let ?store = "\<lparr>contents = ''0123456789''\<rparr>"
  have h: "httpHandler ?store ?req = httpHandler ?store ?req
      \<or> httpHandler ?store ?req = httpsHandler ?store ?req" by simp
  have h': "httpHandler ?store ?req' = httpHandler ?store ?req'
      \<or> httpHandler ?store ?req' = httpsHandler ?store ?req'" by simp
  have inv: "length (contents ?store) < 2 ^ 63" by simp
  have st: "statusCode (httpHandler ?store ?req) = 206" by (simp add: handler_evals)
  have bd: "body (httpHandler ?store ?req) = ''234''" by (simp add: handler_evals)
  have cl: "sentHeader (httpHandler ?store ?req) ''Content-Length'' = [''3'']"
    by (simp add: handler_evals FormatInt_def natDigits.simps char_of_def bit_Suc_0_iff)
  have cr: "sentHeader (httpHandler ?store ?req) ''Content-Range'' = [''bytes 2-4/10'']"
    by (simp add: handler_evals FormatInt_def natDigits.simps char_of_def bit_Suc_0_iff)
  have st': "statusCode (httpHandler ?store ?req') \<noteq> 206" by (simp add: handler_evals)
  note t = partial_content_headers [OF h inv]
  note t' = partial_content_headers [OF h' inv]
  from t st have ex: "\<exists>cl. sentHeader (httpHandler ?store ?req) ''Content-Length'' = [cl]
         \<and> isDigits cl \<and> decimal cl = length (body (httpHandler ?store ?req))"
    by blast
  from t' st' have nr: "sentHeader (httpHandler ?store ?req') ''Content-Range'' = []"
    by blast
  show ?thesis
    using inv st bd cl cr ex st' nr by (intro conjI)
qed

subsection \<open>C5\<close>

text \<open>
  Claim C5, as amended. For tokens that denote numbers below \<open>2 ^ 64\<close> the parser
  returns the pair of the formulas, computed in \<open>int64\<close>: the suffix form \<open>bytes=-N\<close>
  gives \<open>(contentSize - N, N)\<close>, the open-prefix form \<open>bytes=N-\<close> gives
  \<open>(N, contentSize - N)\<close>, the full form \<open>bytes=A-B\<close> gives \<open>(A, B - A + 1)\<close>.
  When the tokens are below \<open>2 ^ 63 - 1\<close> and the content size is not negative, these
  are the integers of the formulas, with a negative offset when \<open>N\<close> exceeds the
  content size. Nothing is clamped.
\<close>

theorem parser_formulas:
  assumes a: "isDigits a" and b: "isDigits b"
    and A: "decimal a < 2 ^ 64" and B: "decimal b < 2 ^ 64"
  shows "offsetAndLenFromRange (''bytes=-'' @ b) contentSize
           = Inr (contentSize - of_nat (decimal b), of_nat (decimal b))
     \<and> offsetAndLenFromRange (''bytes='' @ a @ ''-'') contentSize
           = Inr (of_nat (decimal a), contentSize - of_nat (decimal a))
     \<and> offsetAndLenFromRange (''bytes='' @ a @ ''-'' @ b) contentSize
           = Inr (of_nat (decimal a), of_nat (decimal b) - of_nat (decimal a) + 1)
     \<and> (decimal a < 2 ^ 63 - 1 \<and> decimal b < 2 ^ 63 - 1 \<and> 0 \<le> sint contentSize \<longrightarrow>
           sint (of_nat (decimal a) :: int64) = int (decimal a)
         \<and> sint (of_nat (decimal b) :: int64) = int (decimal b)
         \<and> sint (contentSize - of_nat (decimal a)) = sint contentSize - int (decimal a)
         \<and> sint (contentSize - of_nat (decimal b)) = sint contentSize - int (decimal b)
         \<and> sint (of_nat (decimal b) - of_nat (decimal a) + 1 :: int64)
              = int (decimal b) - int (decimal a) + 1)"
proof -
  let ?A = "decimal a" and ?B = "decimal b"
  have ints: "sint (of_nat ?A :: int64) = int ?A
         \<and> sint (of_nat ?B :: int64) = int ?B
         \<and> sint (contentSize - of_nat ?A) = sint contentSize - int ?A
         \<and> sint (contentSize - of_nat ?B) = sint contentSize - int ?B
         \<and> sint (of_nat ?B - of_nat ?A + 1 :: int64) = int ?B - int ?A + 1"
    if small: "?A < 2 ^ 63 - 1" "?B < 2 ^ 63 - 1" and c: "0 \<le> sint contentSize"
  proof -
    have A': "?A < 2 ^ 63" and B': "?B < 2 ^ 63" and B1: "?B + 1 < 2 ^ 63"
      using small by simp_all
    have sa: "sint (of_nat ?A :: int64) = int ?A" using A' by (rule sint_of_nat_small)
    have sb: "sint (of_nat ?B :: int64) = int ?B" using B' by (rule sint_of_nat_small)
    have sb1: "sint (of_nat (?B + 1) :: int64) = int (?B + 1)"
      using B1 by (rule sint_of_nat_small)
    have cs: "sint contentSize < 2 ^ 63" using sint_range [of contentSize] by simp
    have d1: "sint (contentSize - of_nat ?B) = sint contentSize - int ?B"
      using c cs B' by (subst sint_diff_nowrap) (simp_all only: sb, simp_all)
    have d2: "sint (contentSize - of_nat ?A) = sint contentSize - int ?A"
      using c cs A' by (subst sint_diff_nowrap) (simp_all only: sa, simp_all)
    have len: "(of_nat ?B - of_nat ?A + 1 :: int64) = of_nat (?B + 1) - of_nat ?A" by simp
    have d3: "sint (of_nat ?B - of_nat ?A + 1 :: int64) = int ?B - int ?A + 1"
      unfolding len using A' B1 by (subst sint_diff_nowrap) (simp_all only: sa sb1, simp_all)
    show ?thesis using sa sb d1 d2 d3 by simp
  qed
  have "offsetAndLenFromRange (''bytes=-'' @ b) contentSize
      = Inr (contentSize - of_nat ?B, of_nat ?B)"
    unfolding parse_suffix [OF b] using B by simp
  moreover have "offsetAndLenFromRange (''bytes='' @ a @ ''-'') contentSize
      = Inr (of_nat ?A, contentSize - of_nat ?A)"
    unfolding parse_prefix [OF a] using A by simp
  moreover have "offsetAndLenFromRange (''bytes='' @ a @ ''-'' @ b) contentSize
      = Inr (of_nat ?A, of_nat ?B - of_nat ?A + 1)"
    unfolding parse_full [OF a b] using A B by simp
  ultimately show ?thesis using ints by blast
qed

text \<open>The tokens 2500 and 2599 against a content size of 10.\<close>

theorem parser_formulas_witness:
  "isDigits ''2500'' \<and> isDigits ''2599'' \<and> decimal ''2500'' = 2500 \<and> decimal ''2599'' = 2599
   \<and> decimal ''2500'' < 2 ^ 64 \<and> decimal ''2599'' < 2 ^ 64
   \<and> decimal ''2500'' < 2 ^ 63 - 1 \<and> decimal ''2599'' < 2 ^ 63 - 1 \<and> 0 \<le> sint (10 :: int64)
   \<and> offsetAndLenFromRange (''bytes=-'' @ ''2599'') 10
        = Inr (10 - of_nat (decimal ''2599''), of_nat (decimal ''2599''))
   \<and> sint (10 - of_nat (decimal ''2599'') :: int64) = sint (10 :: int64) - int (decimal ''2599'')
   \<and> offsetAndLenFromRange (''bytes='' @ ''2500'' @ ''-'' @ ''2599'') 10
        = Inr (of_nat (decimal ''2500''), of_nat (decimal ''2599'') - of_nat (decimal ''2500'') + 1)
   \<and> sint (of_nat (decimal ''2599'') - of_nat (decimal ''2500'') + 1 :: int64)
        = int (decimal ''2599'') - int (decimal ''2500'') + 1"
proof -
  have a: "isDigits ''2500''" and b: "isDigits ''2599''" by (simp_all add: token_evals)
  have v: "decimal ''2500'' = 2500" "decimal ''2599'' = 2599" by (simp_all add: token_evals)
  have A: "decimal ''2500'' < 2 ^ 64" and B: "decimal ''2599'' < 2 ^ 64"
    unfolding v by simp_all
  have s: "decimal ''2500'' < 2 ^ 63 - 1" "decimal ''2599'' < 2 ^ 63 - 1"
    unfolding v by simp_all
  have c: "0 \<le> sint (10 :: int64)" by simp
  from parser_formulas [OF a b A B, of 10] a b v A B s c show ?thesis by blast
qed

text \<open>
  Counterexample to C5 as stated: a token of \<open>2 ^ 64\<close> or more is well formed for the
  grammar and the parser returns an error, not a pair; a token from \<open>2 ^ 63\<close> on wraps
  in the conversion to \<open>int64\<close>, and the length returned for \<open>bytes=-9223372036854775808\<close>
  is \<open>- 2 ^ 63\<close>, not the token's number.
\<close>

theorem large_tokens_escape_the_formulas:
  "isDigits ''18446744073709551616''
   \<and> offsetAndLenFromRange ''bytes=18446744073709551616-'' 4000 = Inl NumErrRange
   \<and> isDigits ''9223372036854775808''
   \<and> decimal ''9223372036854775808'' = 9223372036854775808
   \<and> offsetAndLenFromRange ''bytes=-9223372036854775808'' 4000
        = Inr (0x8000000000000FA0, 0x8000000000000000)
   \<and> sint (0x8000000000000000 :: int64) = - 9223372036854775808"
  by (simp add: evals token_evals)

subsection \<open>C6\<close>

text \<open>
  Claim C6. \<open>ReadRange(start, end)\<close> fails with the out-of-range error exactly when
  \<open>end < start\<close>, \<open>end > Len()\<close> or \<open>start < 0\<close>; in every other case it returns
  the bytes of the store from index \<open>start\<close> up to but excluding \<open>end\<close>, a slice
  of length \<open>end - start\<close>. The store is any byte sequence a Go slice can hold (fewer
  than \<open>2 ^ 63\<close> bytes), so that \<open>Len\<close> is its length.
\<close>

theorem ReadRange_bounds_check:
  assumes "length (contents c) < 2 ^ 63"
  shows "(ReadRange c start end = Inl ErrInvalidRange
            \<longleftrightarrow> (end <s start \<or> Len c <s end \<or> start <s 0))
     \<and> (\<not> (end <s start \<or> Len c <s end \<or> start <s 0) \<longrightarrow>
           (\<exists>b. ReadRange c start end = Inr b
              \<and> b = take (nat (sint end - sint start)) (drop (nat (sint start)) (contents c))
              \<and> int (length b) = sint end - sint start
              \<and> (\<forall>i < length b. b ! i = contents c ! (nat (sint start) + i))))
     \<and> sint (Len c) = int (length (contents c))"
proof -
  note L = sint_Len [OF assms]
  have c: "(end <s start \<or> Len c <s end \<or> start <s 0)
     \<longleftrightarrow> (sint end < sint start \<or> int (length (contents c)) < sint end \<or> sint start < 0)"
    by (simp add: word_sless_alt L)
  have d: "nat (sint end) - nat (sint start) = nat (sint end - sint start)"
    if "0 \<le> sint start" "sint start \<le> sint end"
    using that by arith
  show ?thesis
    unfolding c ReadRange_eq [OF assms] using L d by auto
qed

text \<open>One window inside a store of ten bytes and three outside.\<close>

theorem ReadRange_bounds_check_witness:
  "length (contents \<lparr>contents = ''0123456789''\<rparr>) < 2 ^ 63
   \<and> ReadRange \<lparr>contents = ''0123456789''\<rparr> 2 5 = Inr ''234''
   \<and> ReadRange \<lparr>contents = ''0123456789''\<rparr> 5 2 = Inl ErrInvalidRange
   \<and> ReadRange \<lparr>contents = ''0123456789''\<rparr> 5 11 = Inl ErrInvalidRange
   \<and> ReadRange \<lparr>contents = ''0123456789''\<rparr> (- 1) 2 = Inl ErrInvalidRange"
proof -
  have h: "length (contents \<lparr>contents = ''0123456789''\<rparr>) < 2 ^ 63" by simp
  have a: "\<not> ((5 :: int64) <s 2 \<or> Len \<lparr>contents = ''0123456789''\<rparr> <s 5 \<or> (2 :: int64) <s 0)"
    by (simp add: Len_def word_sless_alt)
  have b: "(2 :: int64) <s 5 \<or> Len \<lparr>contents = ''0123456789''\<rparr> <s 2 \<or> (5 :: int64) <s 0"
    by (simp add: word_sless_alt)
  have c: "(11 :: int64) <s 5 \<or> Len \<lparr>contents = ''0123456789''\<rparr> <s 11 \<or> (5 :: int64) <s 0"
    by (simp add: Len_def word_sless_alt)
  have d: "(2 :: int64) <s - 1 \<or> Len \<lparr>contents = ''0123456789''\<rparr> <s 2 \<or> (- 1 :: int64) <s 0"
    by (simp add: word_sless_alt)
  show ?thesis
    using h a b c d
      ReadRange_bounds_check [OF h, of 2 5]
      ReadRange_bounds_check [OF h, of 5 2]
      ReadRange_bounds_check [OF h, of 5 11]
      ReadRange_bounds_check [OF h, of "- 1" 2]
    by simp
qed

subsection \<open>C7\<close>

text \<open>
  Claim C7. For a GET request the handler uses the first non-empty specifier among the
  header \<open>Range\<close>, the header \<open>X-Dolt-Range\<close>, the query parameter \<open>Range\<close> and the
  query parameter \<open>range\<close>, in this order. With a non-empty \<open>Range\<close> header the
  response depends on no other channel: two GET requests with the same \<open>Range\<close>
  header get the same response. With all four empty both servers answer 200 with the
  whole content.
\<close>

theorem dispatch_priority:
  assumes m: "reqMethod req = ''GET''"
  shows "(Get (reqHeader req) ''Range'' \<noteq> [] \<longrightarrow>
            serveContents w req store =
              writeContentRange (HeaderAdd w ''Accept-Ranges'' ''bytes'') store
                (Get (reqHeader req) ''Range''))
     \<and> (Get (reqHeader req) ''Range'' = [] \<and> Get (reqHeader req) ''X-Dolt-Range'' \<noteq> [] \<longrightarrow>
            serveContents w req store =
              writeContentRange (HeaderAdd w ''Accept-Ranges'' ''bytes'') store
                (Get (reqHeader req) ''X-Dolt-Range''))
     \<and> (Get (reqHeader req) ''Range'' = [] \<and> Get (reqHeader req) ''X-Dolt-Range'' = []
          \<and> QueryGet (reqQuery req) ''Range'' \<noteq> [] \<longrightarrow>
            serveContents w req store =
              writeContentRange (HeaderAdd w ''Accept-Ranges'' ''bytes'') store
                (QueryGet (reqQuery req) ''Range''))
     \<and> (Get (reqHeader req) ''Range'' = [] \<and> Get (reqHeader req) ''X-Dolt-Range'' = []
          \<and> QueryGet (reqQuery req) ''Range'' = [] \<and> QueryGet (reqQuery req) ''range'' \<noteq> [] \<longrightarrow>
            serveContents w req store =
              writeContentRange (HeaderAdd w ''Accept-Ranges'' ''bytes'') store
                (QueryGet (reqQuery req) ''range''))
     \<and> (Get (reqHeader req) ''Range'' = [] \<and> Get (reqHeader req) ''X-Dolt-Range'' = []
          \<and> QueryGet (reqQuery req) ''Range'' = [] \<and> QueryGet (reqQuery req) ''range'' = [] \<longrightarrow>
            (\<forall>r. r = httpHandler store req \<or> r = httpsHandler store req \<longrightarrow>
               statusCode r = 200 \<and> body r = ReadAll store
               \<and> sentHeader r ''Content-Length'' = [FormatInt (Len store)]
               \<and> sentHeader r ''Content-Range'' = []))
     \<and> (\<forall>req'. reqMethod req' = ''GET''
            \<and> Get (reqHeader req') ''Range'' = Get (reqHeader req) ''Range''
            \<and> Get (reqHeader req) ''Range'' \<noteq> [] \<longrightarrow>
            serveContents w req' store = serveContents w req store)"
proof -
  have sel: "serveContents w q store =
      writeContentRange (HeaderAdd w ''Accept-Ranges'' ''bytes'') store (selectedSpecifier q)"
    if "reqMethod q = ''GET''" and "selectedSpecifier q \<noteq> []" for q
    using that by (rule serveContents_specifier)
  have s1: "selectedSpecifier q = Get (reqHeader q) ''Range''"
    if "Get (reqHeader q) ''Range'' \<noteq> []" for q
    using that by (simp add: selectedSpecifier_def)
  have s2: "selectedSpecifier req = Get (reqHeader req) ''X-Dolt-Range''"
    if "Get (reqHeader req) ''Range'' = []" "Get (reqHeader req) ''X-Dolt-Range'' \<noteq> []"
    using that by (simp add: selectedSpecifier_def Get_lower)
  have s3: "selectedSpecifier req = QueryGet (reqQuery req) ''Range''"
    if "Get (reqHeader req) ''Range'' = []" "Get (reqHeader req) ''X-Dolt-Range'' = []"
      "QueryGet (reqQuery req) ''Range'' \<noteq> []"
    using that by (simp add: selectedSpecifier_def Get_lower)
  have s4: "selectedSpecifier req = QueryGet (reqQuery req) ''range''"
    if "Get (reqHeader req) ''Range'' = []" "Get (reqHeader req) ''X-Dolt-Range'' = []"
      "QueryGet (reqQuery req) ''Range'' = []"
    using that by (simp add: selectedSpecifier_def Get_lower)
  have c1: "serveContents w req store =
      writeContentRange (HeaderAdd w ''Accept-Ranges'' ''bytes'') store
        (Get (reqHeader req) ''Range'')"
    if "Get (reqHeader req) ''Range'' \<noteq> []"
    using sel [OF m] s1 [OF that] that by simp
  have c2: "serveContents w req store =
      writeContentRange (HeaderAdd w ''Accept-Ranges'' ''bytes'') store
        (Get (reqHeader req) ''X-Dolt-Range'')"
    if "Get (reqHeader req) ''Range'' = []" "Get (reqHeader req) ''X-Dolt-Range'' \<noteq> []"
    using sel [OF m] s2 [OF that] that by simp
  have c3: "serveContents w req store =
      writeContentRange (HeaderAdd w ''Accept-Ranges'' ''bytes'') store
        (QueryGet (reqQuery req) ''Range'')"
    if "Get (reqHeader req) ''Range'' = []" "Get (reqHeader req) ''X-Dolt-Range'' = []"
      "QueryGet (reqQuery req) ''Range'' \<noteq> []"
    using sel [OF m] s3 [OF that] that by simp
  have c4: "serveContents w req store =
      writeContentRange (HeaderAdd w ''Accept-Ranges'' ''bytes'') store
        (QueryGet (reqQuery req) ''range'')"
    if "Get (reqHeader req) ''Range'' = []" "Get (reqHeader req) ''X-Dolt-Range'' = []"
      "QueryGet (reqQuery req) ''Range'' = []" "QueryGet (reqQuery req) ''range'' \<noteq> []"
    using sel [OF m] s4 [OF that(1-3)] that by simp
  have c5: "statusCode r = 200 \<and> body r = ReadAll store
      \<and> sentHeader r ''Content-Length'' = [FormatInt (Len store)]
      \<and> sentHeader r ''Content-Range'' = []"
    if e: "Get (reqHeader req) ''Range'' = []" "Get (reqHeader req) ''X-Dolt-Range'' = []"
      "QueryGet (reqQuery req) ''Range'' = []" "QueryGet (reqQuery req) ''range'' = []"
      and h: "r = httpHandler store req \<or> r = httpsHandler store req" for r
  proof -
    have "selectedSpecifier req = []" using s4 [OF e(1-3)] e(4) by simp
    from handler_absent [OF h m this] show ?thesis by (simp add: ReadAll_def)
  qed
  have c6: "serveContents w req' store = serveContents w req store"
    if "reqMethod req' = ''GET''" "Get (reqHeader req') ''Range'' = Get (reqHeader req) ''Range''"
      "Get (reqHeader req) ''Range'' \<noteq> []" for req'
  proof -
    have "Get (reqHeader req') ''Range'' \<noteq> []" using that by simp
    then have "serveContents w req' store =
      writeContentRange (HeaderAdd w ''Accept-Ranges'' ''bytes'') store
        (Get (reqHeader req') ''Range'')"
      using sel [OF that(1)] s1 [of req'] by simp
    then show ?thesis using c1 [OF that(3)] that(2) by simp
  qed
  show ?thesis using c1 c2 c3 c4 c5 c6 by blast
qed

text \<open>Five requests, one for each case, on a store of ten bytes.\<close>

theorem dispatch_priority_witness:
  "Get (reqHeader \<lparr>reqMethod = ''GET'',
        reqHeader = (\<lambda>k. [])(''Range'' := [''bytes=0-1''], ''X-Dolt-Range'' := [''bytes=2-3'']),
        reqQuery = (\<lambda>k. [])(''range'' := [''bytes=4-5''])\<rparr>) ''Range'' \<noteq> []
   \<and> serveContents newResponseWriter
        \<lparr>reqMethod = ''GET'',
         reqHeader = (\<lambda>k. [])(''Range'' := [''bytes=0-1''], ''X-Dolt-Range'' := [''bytes=2-3'']),
         reqQuery = (\<lambda>k. [])(''range'' := [''bytes=4-5''])\<rparr> \<lparr>contents = ''0123456789''\<rparr>
      = writeContentRange (HeaderAdd newResponseWriter ''Accept-Ranges'' ''bytes'')
          \<lparr>contents = ''0123456789''\<rparr> ''bytes=0-1''
   \<and> serveContents newResponseWriter
        \<lparr>reqMethod = ''GET'', reqHeader = (\<lambda>k. [])(''Range'' := [''bytes=0-1'']),
         reqQuery = (\<lambda>k. [])\<rparr> \<lparr>contents = ''0123456789''\<rparr>
      = serveContents newResponseWriter
        \<lparr>reqMethod = ''GET'',
         reqHeader = (\<lambda>k. [])(''Range'' := [''bytes=0-1''], ''X-Dolt-Range'' := [''bytes=2-3'']),
         reqQuery = (\<lambda>k. [])(''range'' := [''bytes=4-5''])\<rparr> \<lparr>contents = ''0123456789''\<rparr>
   \<and> serveContents newResponseWriter
        \<lparr>reqMethod = ''GET'', reqHeader = (\<lambda>k. [])(''X-Dolt-Range'' := [''bytes=2-3'']),
         reqQuery = (\<lambda>k. [])(''range'' := [''bytes=4-5''])\<rparr> \<lparr>contents = ''0123456789''\<rparr>
      = writeContentRange (HeaderAdd newResponseWriter ''Accept-Ranges'' ''bytes'')
          \<lparr>contents = ''0123456789''\<rparr> ''bytes=2-3''
   \<and> serveContents newResponseWriter
        \<lparr>reqMethod = ''GET'', reqHeader = (\<lambda>k. []),
         reqQuery = (\<lambda>k. [])(''Range'' := [''bytes=6-7''], ''range'' := [''bytes=4-5''])\<rparr>
        \<lparr>contents = ''0123456789''\<rparr>
      = writeContentRange (HeaderAdd newResponseWriter ''Accept-Ranges'' ''bytes'')
          \<lparr>contents = ''0123456789''\<rparr> ''bytes=6-7''
   \<and> serveContents newResponseWriter
        \<lparr>reqMethod = ''GET'', reqHeader = (\<lambda>k. []),
         reqQuery = (\<lambda>k. [])(''range'' := [''bytes=4-5''])\<rparr> \<lparr>contents = ''0123456789''\<rparr>
      = writeContentRange (HeaderAdd newResponseWriter ''Accept-Ranges'' ''bytes'')
          \<lparr>contents = ''0123456789''\<rparr> ''bytes=4-5''
   \<and> statusCode (httpHandler \<lparr>contents = ''0123456789''\<rparr>
        \<lparr>reqMethod = ''GET'', reqHeader = (\<lambda>k. []), reqQuery = (\<lambda>k. [])\<rparr>) = 200
   \<and> body (httpHandler \<lparr>contents = ''0123456789''\<rparr>
        \<lparr>reqMethod = ''GET'', reqHeader = (\<lambda>k. []), reqQuery = (\<lambda>k. [])\<rparr>) = ''0123456789''"
proof -
  let ?store = "\<lparr>contents = ''0123456789''\<rparr>"
  let ?q1 = "\<lparr>reqMethod = ''GET'',
         reqHeader = (\<lambda>k. [])(''Range'' := [''bytes=0-1''], ''X-Dolt-Range'' := [''bytes=2-3'']),
         reqQuery = (\<lambda>k. [])(''range'' := [''bytes=4-5''])\<rparr>"
  let ?q1' = "\<lparr>reqMethod = ''GET'', reqHeader = (\<lambda>k. [])(''Range'' := [''bytes=0-1'']),
         reqQuery = (\<lambda>k. [])\<rparr>"
  let ?q2 = "\<lparr>reqMethod = ''GET'', reqHeader = (\<lambda>k. [])(''X-Dolt-Range'' := [''bytes=2-3'']),
         reqQuery = (\<lambda>k. [])(''range'' := [''bytes=4-5''])\<rparr>"
  let ?q3 = "\<lparr>reqMethod = ''GET'', reqHeader = (\<lambda>k. []),
         reqQuery = (\<lambda>k. [])(''Range'' := [''bytes=6-7''], ''range'' := [''bytes=4-5''])\<rparr>"
  let ?q4 = "\<lparr>reqMethod = ''GET'', reqHeader = (\<lambda>k. []),
         reqQuery = (\<lambda>k. [])(''range'' := [''bytes=4-5''])\<rparr>"
  let ?q5 = "\<lparr>reqMethod = ''GET'', reqHeader = (\<lambda>k. []), reqQuery = (\<lambda>k. [])\<rparr>"
  have m: "reqMethod ?q1 = ''GET''" "reqMethod ?q1' = ''GET''" "reqMethod ?q2 = ''GET''"
    "reqMethod ?q3 = ''GET''" "reqMethod ?q4 = ''GET''" "reqMethod ?q5 = ''GET''"
    by simp_all
  have g1: "Get (reqHeader ?q1) ''Range'' = ''bytes=0-1''"
    and g1': "Get (reqHeader ?q1') ''Range'' = ''bytes=0-1''"
    and g2: "Get (reqHeader ?q2) ''Range'' = []"
      "Get (reqHeader ?q2) ''X-Dolt-Range'' = ''bytes=2-3''"
    and g3: "Get (reqHeader ?q3) ''Range'' = []" "Get (reqHeader ?q3) ''X-Dolt-Range'' = []"
      "QueryGet (reqQuery ?q3) ''Range'' = ''bytes=6-7''"
    and g4: "Get (reqHeader ?q4) ''Range'' = []" "Get (reqHeader ?q4) ''X-Dolt-Range'' = []"
      "QueryGet (reqQuery ?q4) ''Range'' = []" "QueryGet (reqQuery ?q4) ''range'' = ''bytes=4-5''"
    and g5: "Get (reqHeader ?q5) ''Range'' = []" "Get (reqHeader ?q5) ''X-Dolt-Range'' = []"
      "QueryGet (reqQuery ?q5) ''Range'' = []" "QueryGet (reqQuery ?q5) ''range'' = []"
    by (simp_all add: Get_def QueryGet_def canon_keys)
  let ?w = "HeaderAdd newResponseWriter ''Accept-Ranges'' ''bytes''"
  have n1: "Get (reqHeader ?q1) ''Range'' \<noteq> []" unfolding g1 by simp
  have n2: "Get (reqHeader ?q2) ''X-Dolt-Range'' \<noteq> []" unfolding g2 by simp
  have n3: "QueryGet (reqQuery ?q3) ''Range'' \<noteq> []" unfolding g3 by simp
  have n4: "QueryGet (reqQuery ?q4) ''range'' \<noteq> []" unfolding g4 by simp
  note t1 = dispatch_priority [OF m(1), of newResponseWriter ?store]
  note t2 = dispatch_priority [OF m(3), of newResponseWriter ?store]
  note t3 = dispatch_priority [OF m(4), of newResponseWriter ?store]
  note t4 = dispatch_priority [OF m(5), of newResponseWriter ?store]
  note t5 = dispatch_priority [OF m(6), of newResponseWriter ?store]
  have "serveContents newResponseWriter ?q1 ?store
      = writeContentRange ?w ?store (Get (reqHeader ?q1) ''Range'')"
    using t1 n1 by blast
  then have a1: "serveContents newResponseWriter ?q1 ?store
      = writeContentRange ?w ?store ''bytes=0-1''"
    unfolding g1 .
  have "Get (reqHeader ?q1') ''Range'' = Get (reqHeader ?q1) ''Range''"
    unfolding g1 g1' ..
  then have a1': "serveContents newResponseWriter ?q1' ?store
      = serveContents newResponseWriter ?q1 ?store"
    using t1 m(2) n1 by blast
  have "serveContents newResponseWriter ?q2 ?store
      = writeContentRange ?w ?store (Get (reqHeader ?q2) ''X-Dolt-Range'')"
    using t2 g2(1) n2 by blast
  then have a2: "serveContents newResponseWriter ?q2 ?store
      = writeContentRange ?w ?store ''bytes=2-3''"
    unfolding g2 .
  have "serveContents newResponseWriter ?q3 ?store
      = writeContentRange ?w ?store (QueryGet (reqQuery ?q3) ''Range'')"
    using t3 g3(1,2) n3 by blast
  then have a3: "serveContents newResponseWriter ?q3 ?store
      = writeContentRange ?w ?store ''bytes=6-7''"
    unfolding g3 .
  have "serveContents newResponseWriter ?q4 ?store
      = writeContentRange ?w ?store (QueryGet (reqQuery ?q4) ''range'')"
    using t4 g4(1,2,3) n4 by blast
  then have a4: "serveContents newResponseWriter ?q4 ?store
      = writeContentRange ?w ?store ''bytes=4-5''"
    unfolding g4 .
  have "statusCode (httpHandler ?store ?q5) = 200
      \<and> body (httpHandler ?store ?q5) = ReadAll ?store"
    using t5 g5 by blast
  then have a5: "statusCode (httpHandler ?store ?q5) = 200
      \<and> body (httpHandler ?store ?q5) = ''0123456789''"
    by (simp add: ReadAll_def)
  show ?thesis
    using n1 a1 a1' a2 a3 a4 a5 by (intro conjI) (erule conjunct1 conjunct2 | assumption)+
qed

subsection \<open>C8\<close>

text \<open>
  Claim C8. Three GET requests that carry the same string, one in the \<open>Range\<close> header
  only, one in the \<open>X-Dolt-Range\<close> header only and one in the \<open>range\<close> query parameter
  only, get the same response: the same status, the same headers and the same body.
\<close>

theorem channels_agree:
  assumes "reqMethod r1 = ''GET''" and "reqMethod r2 = ''GET''" and "reqMethod r3 = ''GET''"
    and "Get (reqHeader r1) ''Range'' = s" and "Get (reqHeader r1) ''X-Dolt-Range'' = []"
    and "QueryGet (reqQuery r1) ''Range'' = []" and "QueryGet (reqQuery r1) ''range'' = []"
    and "Get (reqHeader r2) ''Range'' = []" and "Get (reqHeader r2) ''X-Dolt-Range'' = s"
    and "QueryGet (reqQuery r2) ''Range'' = []" and "QueryGet (reqQuery r2) ''range'' = []"
    and "Get (reqHeader r3) ''Range'' = []" and "Get (reqHeader r3) ''X-Dolt-Range'' = []"
    and "QueryGet (reqQuery r3) ''Range'' = []" and "QueryGet (reqQuery r3) ''range'' = s"
  shows "serveContents w r1 store = serveContents w r2 store
     \<and> serveContents w r2 store = serveContents w r3 store
     \<and> statusCode (serveContents w r1 store) = statusCode (serveContents w r3 store)
     \<and> body (serveContents w r1 store) = body (serveContents w r3 store)
     \<and> sentHeader (serveContents w r1 store) ''Content-Range''
          = sentHeader (serveContents w r3 store) ''Content-Range''
     \<and> sentHeader (serveContents w r1 store) ''Content-Length''
          = sentHeader (serveContents w r3 store) ''Content-Length''"
proof -
  have e1: "serveContents w r1 store = serveContents w r2 store"
    using assms by (simp add: serveContents_def Let_def Get_lower)
  have e2: "serveContents w r2 store = serveContents w r3 store"
    using assms by (simp add: serveContents_def Let_def Get_lower)
  show ?thesis using e1 e2 by simp
qed

text \<open>The specifier \<open>bytes=2-4\<close> through each of the three channels.\<close>

theorem channels_agree_witness:
  "serveContents newResponseWriter
      \<lparr>reqMethod = ''GET'', reqHeader = (\<lambda>k. [])(''Range'' := [''bytes=2-4'']),
       reqQuery = (\<lambda>k. [])\<rparr> \<lparr>contents = ''0123456789''\<rparr>
    = serveContents newResponseWriter
      \<lparr>reqMethod = ''GET'', reqHeader = (\<lambda>k. [])(''X-Dolt-Range'' := [''bytes=2-4'']),
       reqQuery = (\<lambda>k. [])\<rparr> \<lparr>contents = ''0123456789''\<rparr>
   \<and> serveContents newResponseWriter
      \<lparr>reqMethod = ''GET'', reqHeader = (\<lambda>k. [])(''X-Dolt-Range'' := [''bytes=2-4'']),
       reqQuery = (\<lambda>k. [])\<rparr> \<lparr>contents = ''0123456789''\<rparr>
    = serveContents newResponseWriter
      \<lparr>reqMethod = ''GET'', reqHeader = (\<lambda>k. []),
       reqQuery = (\<lambda>k. [])(''range'' := [''bytes=2-4''])\<rparr> \<lparr>contents = ''0123456789''\<rparr>
   \<and> body (serveContents newResponseWriter
      \<lparr>reqMethod = ''GET'', reqHeader = (\<lambda>k. []),
       reqQuery = (\<lambda>k. [])(''range'' := [''bytes=2-4''])\<rparr> \<lparr>contents = ''0123456789''\<rparr>) = ''234''"
proof -
  let ?store = "\<lparr>contents = ''0123456789''\<rparr>"
  let ?r1 = "\<lparr>reqMethod = ''GET'', reqHeader = (\<lambda>k. [])(''Range'' := [''bytes=2-4'']),
       reqQuery = (\<lambda>k. [])\<rparr>"
  let ?r2 = "\<lparr>reqMethod = ''GET'', reqHeader = (\<lambda>k. [])(''X-Dolt-Range'' := [''bytes=2-4'']),
       reqQuery = (\<lambda>k. [])\<rparr>"
  let ?r3 = "\<lparr>reqMethod = ''GET'', reqHeader = (\<lambda>k. []),
       reqQuery = (\<lambda>k. [])(''range'' := [''bytes=2-4''])\<rparr>"
  have m: "reqMethod ?r1 = ''GET''" "reqMethod ?r2 = ''GET''" "reqMethod ?r3 = ''GET''"
    by simp_all
  have g1: "Get (reqHeader ?r1) ''Range'' = ''bytes=2-4''"
      "Get (reqHeader ?r1) ''X-Dolt-Range'' = []"
      "QueryGet (reqQuery ?r1) ''Range'' = []" "QueryGet (reqQuery ?r1) ''range'' = []"
    and g2: "Get (reqHeader ?r2) ''Range'' = []"
      "Get (reqHeader ?r2) ''X-Dolt-Range'' = ''bytes=2-4''"
      "QueryGet (reqQuery ?r2) ''Range'' = []" "QueryGet (reqQuery ?r2) ''range'' = []"
    and g3: "Get (reqHeader ?r3) ''Range'' = []" "Get (reqHeader ?r3) ''X-Dolt-Range'' = []"
      "QueryGet (reqQuery ?r3) ''Range'' = []" "QueryGet (reqQuery ?r3) ''range'' = ''bytes=2-4''"
    by (simp_all add: Get_def QueryGet_def canon_keys)
  have b: "body (serveContents newResponseWriter ?r3 ?store) = ''234''"
    by (simp add: handler_evals)
  note t = channels_agree [OF m g1 g2 g3, of newResponseWriter ?store]
  show ?thesis
    using t [THEN conjunct1] t [THEN conjunct2, THEN conjunct1] b by (intro conjI)
qed

subsection \<open>C9\<close>

text \<open>
  Claim C9. A GET request with the open-prefix specifier \<open>bytes=N-\<close> is answered 206
  with an empty body and \<open>Content-Length: 0\<close> when \<open>N\<close> is the length of the store, and
  400 when \<open>N\<close> is greater; \<open>ReadRange(k, k)\<close> succeeds for every
  \<open>0 <= k <= Len\<close>.
\<close>

theorem window_at_upper_boundary:
  assumes h: "r = httpHandler store req \<or> r = httpsHandler store req"
    and m: "reqMethod req = ''GET''"
    and s: "selectedSpecifier req = ''bytes='' @ a @ ''-''"
    and a: "isDigits a"
    and inv: "length (contents store) < 2 ^ 63"
  shows "(decimal a = length (contents store) \<longrightarrow>
            statusCode r = 206 \<and> body r = [] \<and> sentHeader r ''Content-Length'' = [''0''])
     \<and> (length (contents store) < decimal a \<longrightarrow> statusCode r = 400)
     \<and> (\<forall>k. 0 \<le> sint k \<and> sint k \<le> int (length (contents store))
            \<longrightarrow> ReadRange store k k = Inr [])"
proof -
  let ?A = "decimal a" and ?L = "length (contents store)"
  have ne: "selectedSpecifier req \<noteq> []" by (simp add: s)
  have sL: "sint (Len store) = int ?L" using inv by (rule sint_Len)
  have one: "statusCode r = 206 \<and> body r = [] \<and> sentHeader r ''Content-Length'' = [''0'']"
    if eq: "?A = ?L"
  proof -
    have p: "offsetAndLenFromRange (selectedSpecifier req) (Len store) = Inr (Len store, 0)"
      unfolding s parse_prefix [OF a] using eq inv by (simp add: Len_def)
    have rd: "ReadRange store (Len store) (Len store + 0) = Inr []"
      using sL by (simp add: ReadRange_eq [OF inv])
    have z: "FormatInt 0 = ''0''"
      by (simp add: FormatInt_def natDigits.simps char_of_def bit_Suc_0_iff)
    show ?thesis
      using handler_partial [OF h inv m ne p rd] by (simp add: z)
  qed
  have two: "statusCode r = 400" if gt: "?L < ?A"
  proof (cases "?A < 2 ^ 64")
    case False
    then have "offsetAndLenFromRange (selectedSpecifier req) (Len store) = Inl NumErrRange"
      unfolding s parse_prefix [OF a] by simp
    then show ?thesis
      using handler_rejected(1) [OF h inv m ne] by blast
  next
    case True
    let ?off = "of_nat ?A :: int64"
    have p: "offsetAndLenFromRange (selectedSpecifier req) (Len store)
        = Inr (?off, Len store - ?off)"
      unfolding s parse_prefix [OF a] using True by simp
    have "sint (Len store) < sint ?off \<or> sint ?off < 0"
    proof (cases "?A < 2 ^ 63")
      case True
      then have "sint ?off = int ?A" by (rule sint_of_nat_small)
      then show ?thesis using gt sL by simp
    next
      case False
      then have "2 ^ 63 \<le> ?A" by simp
      then have "sint ?off < 0" using True by (rule sint_of_nat_negative)
      then show ?thesis ..
    qed
    then have "ReadRange store ?off (?off + (Len store - ?off)) = Inl ErrInvalidRange"
      unfolding ReadRange_eq [OF inv] by auto
    then show ?thesis
      using handler_rejected(1) [OF h inv m ne] p by blast
  qed
  have three: "ReadRange store k k = Inr []"
    if "0 \<le> sint k \<and> sint k \<le> int ?L" for k
    unfolding ReadRange_eq [OF inv] using that by simp
  show ?thesis using one two three by blast
qed

text \<open>\<open>bytes=10-\<close> and \<open>bytes=11-\<close> on a store of ten bytes.\<close>

theorem window_at_upper_boundary_witness:
  "selectedSpecifier \<lparr>reqMethod = ''GET'', reqHeader = (\<lambda>k. []),
       reqQuery = (\<lambda>k. [])(''range'' := [''bytes=10-''])\<rparr> = ''bytes='' @ ''10'' @ ''-''
   \<and> isDigits ''10'' \<and> decimal ''10'' = length (contents \<lparr>contents = ''0123456789''\<rparr>)
   \<and> statusCode (httpHandler \<lparr>contents = ''0123456789''\<rparr>
        \<lparr>reqMethod = ''GET'', reqHeader = (\<lambda>k. []),
         reqQuery = (\<lambda>k. [])(''range'' := [''bytes=10-''])\<rparr>) = 206
   \<and> body (httpHandler \<lparr>contents = ''0123456789''\<rparr>
        \<lparr>reqMethod = ''GET'', reqHeader = (\<lambda>k. []),
         reqQuery = (\<lambda>k. [])(''range'' := [''bytes=10-''])\<rparr>) = []
   \<and> selectedSpecifier \<lparr>reqMethod = ''GET'', reqHeader = (\<lambda>k. []),
       reqQuery = (\<lambda>k. [])(''range'' := [''bytes=11-''])\<rparr> = ''bytes='' @ ''11'' @ ''-''
   \<and> isDigits ''11'' \<and> length (contents \<lparr>contents = ''0123456789''\<rparr>) < decimal ''11''
   \<and> statusCode (httpHandler \<lparr>contents = ''0123456789''\<rparr>
        \<lparr>reqMethod = ''GET'', reqHeader = (\<lambda>k. []),
         reqQuery = (\<lambda>k. [])(''range'' := [''bytes=11-''])\<rparr>) = 400"
proof -
  let ?req = "\<lparr>reqMethod = ''GET'', reqHeader = (\<lambda>k. []),
       reqQuery = (\<lambda>k. [])(''range'' := [''bytes=10-''])\<rparr>"
  let ?req' = "\<lparr>reqMethod = ''GET'', reqHeader = (\<lambda>k. []),
       reqQuery = (\<lambda>k. [])(''range'' := [''bytes=11-''])\<rparr>"
  let ?store = "\<lparr>contents = ''0123456789''\<rparr>"
  have h: "httpHandler ?store ?req = httpHandler ?store ?req
      \<or> httpHandler ?store ?req = httpsHandler ?store ?req" by simp
  have h': "httpHandler ?store ?req' = httpHandler ?store ?req'
      \<or> httpHandler ?store ?req' = httpsHandler ?store ?req'" by simp
  have m: "reqMethod ?req = ''GET''" and m': "reqMethod ?req' = ''GET''" by simp_all
  have s: "selectedSpecifier ?req = ''bytes='' @ ''10'' @ ''-''"
    and s': "selectedSpecifier ?req' = ''bytes='' @ ''11'' @ ''-''"
    by (simp_all add: selectedSpecifier_def Get_def QueryGet_def canon_keys)
  have a: "isDigits ''10''" and a': "isDigits ''11''" by (simp_all add: token_evals)
  have eq: "decimal ''10'' = length (contents ?store)" by (simp add: token_evals)
  have gt: "length (contents ?store) < decimal ''11''" by (simp add: token_evals)
  have inv: "length (contents ?store) < 2 ^ 63" by simp
  note t = window_at_upper_boundary [OF h m s a inv]
  note t' = window_at_upper_boundary [OF h' m' s' a' inv]
  from t eq have "statusCode (httpHandler ?store ?req) = 206"
    and "body (httpHandler ?store ?req) = []" by blast+
  moreover from t' gt have "statusCode (httpHandler ?store ?req') = 400" by blast
  ultimately show ?thesis using s a eq s' a' gt by blast
qed

subsection \<open>C10\<close>

text \<open>
  Claim C10. The parser strips ASCII white space around each numeric token: a
  specifier of any of the three forms, with white space inserted before and after the
  digits of its tokens, gives the same result as the specifier without it. For tokens
  below \<open>2 ^ 64\<close> it is accepted and the result is the pair of the form; for a larger
  token it is rejected with the error of the form.
\<close>

theorem whitespace_ignored:
  assumes "isDigits a" and "isDigits b"
    and "list_all isAsciiSpace w1" and "list_all isAsciiSpace w2"
    and "list_all isAsciiSpace w3" and "list_all isAsciiSpace w4"
  shows "offsetAndLenFromRange (''bytes='' @ w1 @ a @ w2 @ ''-'' @ w3 @ b @ w4) contentSize
           = offsetAndLenFromRange (''bytes='' @ a @ ''-'' @ b) contentSize
     \<and> offsetAndLenFromRange (''bytes='' @ w1 @ a @ w2 @ ''-'') contentSize
           = offsetAndLenFromRange (''bytes='' @ a @ ''-'') contentSize
     \<and> offsetAndLenFromRange (''bytes=-'' @ w3 @ b @ w4) contentSize
           = offsetAndLenFromRange (''bytes=-'' @ b) contentSize
     \<and> TrimSpace (w1 @ a @ w2) = a
     \<and> (decimal a < 2 ^ 64 \<and> decimal b < 2 ^ 64 \<longrightarrow>
           offsetAndLenFromRange (''bytes='' @ w1 @ a @ w2 @ ''-'' @ w3 @ b @ w4) contentSize
             = Inr (of_nat (decimal a), of_nat (decimal b) - of_nat (decimal a) + 1))
     \<and> (decimal a < 2 ^ 64 \<longrightarrow>
           offsetAndLenFromRange (''bytes='' @ w1 @ a @ w2 @ ''-'') contentSize
             = Inr (of_nat (decimal a), contentSize - of_nat (decimal a)))
     \<and> (decimal b < 2 ^ 64 \<longrightarrow>
           offsetAndLenFromRange (''bytes=-'' @ w3 @ b @ w4) contentSize
             = Inr (contentSize - of_nat (decimal b), of_nat (decimal b)))
     \<and> (\<not> decimal a < 2 ^ 64 \<longrightarrow>
           offsetAndLenFromRange (''bytes='' @ w1 @ a @ w2 @ ''-'' @ w3 @ b @ w4) contentSize
             = Inl NumErrRange
         \<and> offsetAndLenFromRange (''bytes='' @ w1 @ a @ w2 @ ''-'') contentSize
             = Inl NumErrRange)
     \<and> (\<not> decimal b < 2 ^ 64 \<longrightarrow>
           offsetAndLenFromRange (''bytes='' @ w1 @ a @ w2 @ ''-'' @ w3 @ b @ w4) contentSize
             = Inl NumErrRange
         \<and> offsetAndLenFromRange (''bytes=-'' @ w3 @ b @ w4) contentSize
             = Inl ErrInvalidRangeStr)"
proof -
  have e: "list_all isAsciiSpace []" by simp
  show ?thesis
    using parse_full_padded [OF assms(1) assms(3) assms(4) assms(2) assms(5) assms(6), of contentSize]
      parse_full_padded [OF assms(1) e e assms(2) e e, of contentSize]
      parse_prefix_padded [OF assms(1) assms(3) assms(4), of contentSize]
      parse_prefix_padded [OF assms(1) e e, of contentSize]
      parse_suffix_padded [OF assms(2) assms(5) assms(6), of contentSize]
      parse_suffix_padded [OF assms(2) e e, of contentSize]
      TrimSpace_padded [OF assms(1) assms(3) assms(4)]
    by simp
qed

text \<open>
  \<open>bytes= 0 - 100\<close> gives \<open>(0, 101)\<close>, \<open>bytes=2500 - 2599\<close> gives \<open>(2500, 100)\<close>,
  and a tab after the digits changes nothing.
\<close>

theorem whitespace_ignored_witness:
  "isDigits ''0'' \<and> isDigits ''100'' \<and> list_all isAsciiSpace '' ''
   \<and> list_all isAsciiSpace [CHR 0x09]
   \<and> decimal ''0'' < 2 ^ 64 \<and> decimal ''100'' < 2 ^ 64
   \<and> offsetAndLenFromRange ''bytes= 0 - 100'' 4000 = offsetAndLenFromRange ''bytes=0-100'' 4000
   \<and> offsetAndLenFromRange ''bytes= 0 - 100'' 4000 = Inr (0, 101)
   \<and> offsetAndLenFromRange (''bytes= 0'' @ [CHR 0x09] @ ''-'') 4000 = Inr (0, 4000)
   \<and> offsetAndLenFromRange (''bytes=- 100'' @ [CHR 0x09]) 4000 = Inr (3900, 100)
   \<and> isDigits ''2500'' \<and> isDigits ''2599''
   \<and> offsetAndLenFromRange ''bytes=2500 - 2599'' 4000 = Inr (2500, 100)"
proof -
  have a: "isDigits ''0''" and b: "isDigits ''100''"
    and a': "isDigits ''2500''" and b': "isDigits ''2599''"
    by (simp_all add: isDigits_def isDigit_def)
  have s: "list_all isAsciiSpace '' ''" and t: "list_all isAsciiSpace [CHR 0x09]"
    and n: "list_all isAsciiSpace []"
    by (simp_all add: isAsciiSpace_def)
  have v: "decimal ''0'' = 0" "decimal ''100'' = 100" "decimal ''2500'' = 2500"
    "decimal ''2599'' = 2599"
    by (simp_all add: token_evals)
  have A: "decimal ''0'' < 2 ^ 64" and B: "decimal ''100'' < 2 ^ 64"
    and A': "decimal ''2500'' < 2 ^ 64" and B': "decimal ''2599'' < 2 ^ 64"
    unfolding v by simp_all
  note t1 = whitespace_ignored [OF a b s s s n, of 4000]
  note t2 = whitespace_ignored [OF a b s t s t, of 4000]
  note t3 = whitespace_ignored [OF a' b' n s s n, of 4000]
  have e1: "offsetAndLenFromRange ''bytes= 0 - 100'' 4000
      = offsetAndLenFromRange ''bytes=0-100'' 4000"
    using t1 [THEN conjunct1] by simp
  have e2: "offsetAndLenFromRange ''bytes= 0 - 100'' 4000 = Inr (0, 101)"
    using t1 [THEN conjunct2, THEN conjunct2, THEN conjunct2, THEN conjunct2, THEN conjunct1]
      A B by (simp add: v)
  have e3: "offsetAndLenFromRange (''bytes= 0'' @ [CHR 0x09] @ ''-'') 4000 = Inr (0, 4000)"
    using t2 [THEN conjunct2, THEN conjunct2, THEN conjunct2, THEN conjunct2, THEN conjunct2, THEN conjunct1]
      A by (simp add: v)
  have e4: "offsetAndLenFromRange (''bytes=- 100'' @ [CHR 0x09]) 4000 = Inr (3900, 100)"
    using t2 [THEN conjunct2, THEN conjunct2, THEN conjunct2, THEN conjunct2, THEN conjunct2, THEN conjunct2, THEN conjunct1]
      B by (simp add: v)
  have e5: "offsetAndLenFromRange ''bytes=2500 - 2599'' 4000 = Inr (2500, 100)"
    using t3 [THEN conjunct2, THEN conjunct2, THEN conjunct2, THEN conjunct2, THEN conjunct1]
      A' B' by (simp add: v)
  show ?thesis
    using a b s t A B e1 e2 e3 e4 a' b' e5 by (intro conjI)
qed

end
